theory Spec2Isabelle
  imports Main "HOL-Library.AList"
begin

section \<open>Python values used by the bot\<close>

text \<open>
  Card names are the exact strings of the wire protocol. A Python \<open>dict\<close> keeps its
  keys in insertion order, so it is an association list (keys distinct in every dict
  the bot builds); \<open>AList.update\<close> overwrites in place or appends at the end, as
  \<open>d[k] = v\<close> does.
\<close>

type_synonym card = string
type_synonym 'v dict = "(string \<times> 'v) list"

datatype py_error =
    ValueError | IndexError | AttributeError | ConnectionError
  | JSONDecodeError | RecursionError

definition py_bind :: "py_error + 'a \<Rightarrow> ('a \<Rightarrow> py_error + 'b) \<Rightarrow> py_error + 'b" where
  "py_bind m f = (case m of Inl e \<Rightarrow> Inl e | Inr x \<Rightarrow> f x)"

text \<open>\<open>xs.index(x)\<close>: position of the first occurrence, \<open>ValueError\<close> when absent.\<close>

fun py_index :: "'a list \<Rightarrow> 'a \<Rightarrow> py_error + nat" where
  "py_index [] x = Inl ValueError"
| "py_index (y # ys) x =
     (if y = x then Inr 0
      else (case py_index ys x of Inl e \<Rightarrow> Inl e | Inr i \<Rightarrow> Inr (Suc i)))"

text \<open>\<open>xs[i]\<close> for a non-negative index: \<open>IndexError\<close> past the end.\<close>

definition py_get :: "'a list \<Rightarrow> nat \<Rightarrow> py_error + 'a" where
  "py_get xs i = (if i < length xs then Inr (xs ! i) else Inl IndexError)"

text \<open>\<open>max(xs)\<close> and \<open>min(xs)\<close>: \<open>ValueError\<close> on an empty list.\<close>

fun py_max :: "int list \<Rightarrow> py_error + int" where
  "py_max [] = Inl ValueError"
| "py_max (x # xs) = Inr (fold max xs x)"

fun py_min :: "int list \<Rightarrow> py_error + int" where
  "py_min [] = Inl ValueError"
| "py_min (x # xs) = Inr (fold min xs x)"

section \<open>GameState\<close>

text \<open>
  The dataclass \<open>GameState\<close>. \<open>current_hand_ptr\<close> starts at 0, is reset to 0 by
  \<open>handle_round_start\<close> and is otherwise only incremented (\<open>handle_played\<close>), so it is
  a natural number. \<open>player_count\<close>, \<open>round\<close> and \<open>turn\<close> come from \<open>int(...)\<close> of a
  server token and from integer arithmetic: they are unbounded integers.
\<close>

record GameState =
  game_id :: string
  player_id :: int
  rejoin_token :: string
  player_name :: string
  hand :: "card list"
  player_count :: int
  all_hands :: "card list option list"
  current_hand_ptr :: nat
  my_tableau :: "card list"
  all_tableaux :: "card list dict"
  last_card_played :: "card option"
  last_turn_reveals :: "card list dict"
  round :: int
  turn :: int

text \<open>
  The constructor as \<open>join_game\<close> and \<open>_join_match\<close> call it: four fields given,
  every other field at its dataclass default.
\<close>

definition new_GameState :: "string \<Rightarrow> int \<Rightarrow> string \<Rightarrow> string \<Rightarrow> GameState" where
  "new_GameState gid pid token name =
     \<lparr> game_id = gid, player_id = pid, rejoin_token = token, player_name = name,
       hand = [], player_count = 0, all_hands = [], current_hand_ptr = 0,
       my_tableau = [], all_tableaux = [], last_card_played = None,
       last_turn_reveals = [], round = 1, turn = 1 \<rparr>"

definition next_hand :: "GameState \<Rightarrow> card list option" where
  "next_hand st =
     (let idx = current_hand_ptr st + 1
      in if idx < length (all_hands st) then all_hands st ! idx else None)"

definition count :: "GameState \<Rightarrow> card \<Rightarrow> nat" where
  "count st c = count_list (my_tableau st) c"

definition has_chopsticks :: "GameState \<Rightarrow> bool" where
  "has_chopsticks st = (''Chopsticks'' \<in> set (my_tableau st))"

definition has_unused_wasabi :: "GameState \<Rightarrow> bool" where
  "has_unused_wasabi st =
     (let wasabi = count st ''Wasabi'';
          nigiri = sum_list (map (count st) [''Egg Nigiri'', ''Salmon Nigiri'', ''Squid Nigiri''])
      in wasabi > nigiri)"

definition puddings :: "GameState \<Rightarrow> nat" where
  "puddings st = count st ''Pudding''"

section \<open>Decision engine\<close>

text \<open>
  The functions below return from the first \<open>if\<close> that fires. Each such \<open>if\<close> is a
  rule that either returns a value or falls through to the next statement; a rule
  whose evaluation raises ends the whole function with that error.
\<close>

definition falls_through :: "py_error + 'a option" where
  "falls_through = Inr None"

definition returns :: "py_error + 'a \<Rightarrow> py_error + 'a option" where
  "returns m = (case m of Inl e \<Rightarrow> Inl e | Inr x \<Rightarrow> Inr (Some x))"

fun first_return :: "(py_error + 'a option) list \<Rightarrow> py_error + 'a option" where
  "first_return [] = Inr None"
| "first_return (r # rs) =
     (case r of
        Inl e \<Rightarrow> Inl e
      | Inr (Some x) \<Rightarrow> Inr (Some x)
      | Inr None \<Rightarrow> first_return rs)"

text \<open>\<open>occurances\<close>: the counting loop, \<open>res\<close> threaded through.\<close>

fun occurances_loop :: "card list \<Rightarrow> card \<Rightarrow> nat \<Rightarrow> nat" where
  "occurances_loop [] c res = res"
| "occurances_loop (i # rest) c res =
     occurances_loop rest c (if i = c then res + 1 else res)"

definition occurances :: "card list \<Rightarrow> card \<Rightarrow> nat" where
  "occurances h c = occurances_loop h c 0"

definition valid_combo :: "GameState \<Rightarrow> card list \<Rightarrow> card list \<Rightarrow> card list" where
  "valid_combo st h my_table =
     (let res = [];
          res = (if occurances my_table ''Sashimi'' mod 3 = 2 \<and> ''Sashimi'' \<in> set h
                 then res @ [''Sashimi''] else res);
          res = (if has_unused_wasabi st \<and> ''Squid Nigiri'' \<in> set h
                 then res @ [''Squid Nigiri''] else res);
          res = (if has_unused_wasabi st \<and> ''Salmon Nigiri'' \<in> set h
                 then res @ [''Salmon Nigiri''] else res);
          res = (if occurances my_table ''Tempura'' mod 2 = 1 \<and> ''Tempura'' \<in> set h
                 then res @ [''Tempura''] else res);
          res = (if has_unused_wasabi st \<and> ''Egg Nigiri'' \<in> set h
                 then res @ [''Egg Nigiri''] else res)
      in res)"

text \<open>The pair \<open>(a, b)\<close> of two index computations, evaluated left to right.\<close>

definition index_pair :: "py_error + nat \<Rightarrow> py_error + nat \<Rightarrow> py_error + (nat \<times> nat)" where
  "index_pair a b = py_bind a (\<lambda>i. py_bind b (\<lambda>j. Inr (i, j)))"

definition chopstick_combo :: "card list \<Rightarrow> GameState \<Rightarrow> py_error + (nat \<times> nat) option" where
  "chopstick_combo h st =
     (if \<not> has_chopsticks st then Inr None
      else first_return
        [ (if occurances (my_tableau st) ''Sashimi'' mod 3 = 1 then
             (let sashimi_indices = map fst (filter (\<lambda>(i, c). c = ''Sashimi'') (enumerate 0 h))
              in if length sashimi_indices \<ge> 2
                 then returns (index_pair (py_get sashimi_indices 0) (py_get sashimi_indices 1))
                 else falls_through)
           else falls_through),
          (if ''Wasabi'' \<in> set h \<and> ''Squid Nigiri'' \<in> set h
           then returns (index_pair (py_index h ''Wasabi'') (py_index h ''Squid Nigiri''))
           else falls_through),
          (if ''Wasabi'' \<in> set h \<and> ''Salmon Nigiri'' \<in> set h
           then returns (index_pair (py_index h ''Wasabi'') (py_index h ''Salmon Nigiri''))
           else falls_through),
          (if occurances (my_tableau st) ''Tempura'' mod 2 = 1 then
             (let tempura_indices = map fst (filter (\<lambda>(i, c). c = ''Tempura'') (enumerate 0 h))
              in if length tempura_indices \<ge> 2
                 then returns (index_pair (py_get tempura_indices 0) (py_get tempura_indices 1))
                 else falls_through)
           else falls_through),
          (if ''Wasabi'' \<in> set h \<and> ''Egg Nigiri'' \<in> set h
           then returns (index_pair (py_index h ''Wasabi'') (py_index h ''Egg Nigiri''))
           else falls_through) ])"

definition should_grab_chopsticks :: "card list \<Rightarrow> GameState \<Rightarrow> bool" where
  "should_grab_chopsticks h st =
     (if ''Chopsticks'' \<notin> set h then False
      else if has_chopsticks st then False
      else (case next_hand st of
              None \<Rightarrow> False
            | Some next_h \<Rightarrow>
                (let nigiri_types = [''Egg Nigiri'', ''Salmon Nigiri'', ''Squid Nigiri'']
                 in if ''Wasabi'' \<in> set next_h \<and> list_ex (\<lambda>n. n \<in> set next_h) nigiri_types
                    then True
                    else if count_list next_h ''Sashimi'' \<ge> 2 then True
                    else if count_list next_h ''Tempura'' \<ge> 2 then True
                    else False)))"

text \<open>
  The condition of the pudding rule,
  \<open>(p < max(cs) and p + turns_left > max(cs)) or (p <= min(cs))\<close>, with Python's
  short-circuit order; \<open>max\<close> and \<open>min\<close> raise on an empty list.
\<close>

definition pudding_condition :: "int \<Rightarrow> int \<Rightarrow> int list \<Rightarrow> py_error + bool" where
  "pudding_condition p turns_left cs =
     py_bind (py_max cs) (\<lambda>m1.
       if p < m1 then
         py_bind (py_max cs) (\<lambda>m2.
           if p + turns_left > m2 then Inr True
           else py_bind (py_min cs) (\<lambda>m3. Inr (p \<le> m3)))
       else py_bind (py_min cs) (\<lambda>m3. Inr (p \<le> m3)))"

definition choose_card :: "card list \<Rightarrow> GameState \<Rightarrow> py_error + nat" where
  "choose_card h st =
     (let combos = valid_combo st h (my_tableau st);
          total_turns = (if player_count st = 2 then 10
                         else if player_count st = 3 then 9
                         else if player_count st = 4 then 8
                         else if player_count st = 5 then 7
                         else (0::int));
          turns_left = total_turns - turn st;
          pudding_counts = map (\<lambda>(player, tableau). int (count_list tableau ''Pudding''))
                             (all_tableaux st);
          nigiri_types = [''Egg Nigiri'', ''Salmon Nigiri'', ''Squid Nigiri''];
          nigiri_count = sum_list (map (\<lambda>card. 1::nat) (filter (\<lambda>card. card \<in> set nigiri_types) h))
      in case first_return
        [ (case combos of [] \<Rightarrow> falls_through | c # _ \<Rightarrow> returns (py_index h c)),
          (if should_grab_chopsticks h st \<and> ''Chopsticks'' \<in> set h
           then returns (py_index h ''Chopsticks'') else falls_through),
          (if pudding_counts = [] then falls_through
           else py_bind (pudding_condition (int (puddings st)) turns_left pudding_counts)
                  (\<lambda>b. if b then (if ''Pudding'' \<in> set h
                                   then returns (py_index h ''Pudding'') else falls_through)
                        else falls_through)),
          (if nigiri_count \<ge> 2 \<and> ''Wasabi'' \<in> set h
           then returns (py_index h ''Wasabi'') else falls_through),
          (if count st ''Dumpling'' < 5 \<and> ''Dumpling'' \<in> set h
           then returns (py_index h ''Dumpling'') else falls_through),
          (if ''Squid Nigiri'' \<in> set h
           then returns (py_index h ''Squid Nigiri'') else falls_through),
          (if ''Salmon Nigiri'' \<in> set h
           then returns (py_index h ''Salmon Nigiri'') else falls_through),
          (if ''Egg Nigiri'' \<in> set h
           then returns (py_index h ''Egg Nigiri'') else falls_through),
          (if count st ''Sashimi'' = 1 \<and> ''Sashimi'' \<in> set h
           then returns (py_index h ''Sashimi'') else falls_through),
          (if count st ''Tempura'' = 1 \<and> ''Tempura'' \<in> set h
           then returns (py_index h ''Tempura'') else falls_through),
          (if ''Sashimi'' \<in> set h
           then returns (py_index h ''Sashimi'') else falls_through),
          (if ''Maki Roll (3)'' \<in> set h
           then returns (py_index h ''Maki Roll (3)'') else falls_through),
          (if ''Maki Roll (2)'' \<in> set h
           then returns (py_index h ''Maki Roll (2)'') else falls_through),
          (if ''Maki Roll (1)'' \<in> set h
           then returns (py_index h ''Maki Roll (1)'') else falls_through) ]
         of Inl e \<Rightarrow> Inl e
          | Inr (Some i) \<Rightarrow> Inr i
          | Inr None \<Rightarrow> Inr 0)"

text \<open>
  \<open>choose_chopsticks\<close>: a returned tuple has two components, hence is truthy, so the
  combo is passed on unchanged.
\<close>

definition choose_chopsticks :: "card list \<Rightarrow> GameState \<Rightarrow> py_error + (nat \<times> nat) option" where
  "choose_chopsticks h st =
     py_bind (chopstick_combo h st) (\<lambda>chopstick_combos.
       case chopstick_combos of Some p \<Rightarrow> Inr (Some p) | None \<Rightarrow> Inr None)"

section \<open>Wire decoding and the bot\<close>

text \<open>
  The bot decodes server lines with Python's \<open>str.split()\<close> and \<open>int()\<close> and with its
  regular-expression parsers \<open>parse_hand\<close> and \<open>parse_played\<close>. No property below
  depends on how a line is cut into tokens, so the decoders are parameters of the
  handlers: \<open>py_split\<close> is \<open>message.split()\<close>, \<open>py_int\<close> is \<open>int(token)\<close> (which raises
  \<open>ValueError\<close> on a token that is not a number), \<open>parse_hand\<close> and \<open>parse_played\<close>
  are the two parsers, the latter returning the reveal dict. \<open>py_split_max\<close> is
  \<open>message.split(None, 2)\<close> and \<open>json_loads\<close> is \<open>json.loads(text)\<close>, whose value the
  bot only prints: it raises \<open>JSONDecodeError\<close> on text that is not JSON, and can also
  raise \<open>ValueError\<close> (an integer literal beyond the digit limit) or \<open>RecursionError\<close>
  (nesting too deep).
\<close>

record codec =
  py_split :: "string \<Rightarrow> string list"
  py_int :: "string \<Rightarrow> py_error + int"
  parse_hand :: "string \<Rightarrow> card list"
  parse_played :: "string \<Rightarrow> card list dict"
  py_split_max :: "string \<Rightarrow> string list"
  json_loads :: "string \<Rightarrow> py_error + unit"

text \<open>Commands written by \<open>send\<close>, kept as values instead of rendered lines.\<close>

datatype command =
    JOIN string string
  | READY
  | PLAY nat
  | CHOPSTICKS nat nat
  | TOURNEY string string
  | TJOIN string
  | LEAVE

text \<open>
  \<open>SushiGoBot\<close>: the game state (\<open>None\<close> before a join and after \<open>_leave_game\<close>) and
  the commands sent so far. Reading an attribute of \<open>self.state\<close> while it is \<open>None\<close>
  raises \<open>AttributeError\<close>.
\<close>

record SushiGoBot =
  state :: "GameState option"
  sent :: "command list"

definition startswith :: "string \<Rightarrow> string \<Rightarrow> bool" where
  "startswith s p = (take (length p) s = p)"

section \<open>Turn execution\<close>

text \<open>\<open>_record_play\<close>; \<open>tracked.remove(card)\<close> deletes the first occurrence.\<close>

definition record_play :: "card \<Rightarrow> GameState \<Rightarrow> GameState" where
  "record_play c st =
     (let st = st\<lparr>last_card_played := Some c\<rparr>;
          st = st\<lparr>my_tableau := my_tableau st @ [c]\<rparr>;
          ptr = current_hand_ptr st
      in if ptr < length (all_hands st) then
           (case all_hands st ! ptr of
              None \<Rightarrow> st
            | Some tracked \<Rightarrow>
                if c \<in> set tracked
                then st\<lparr>all_hands := (all_hands st)[ptr := Some (remove1 c tracked)]\<rparr>
                else st)
         else st)"

text \<open>
  The \<open>HAND\<close> branch of \<open>_play_game\<close> before it calls \<open>play_turn\<close>: the parsed hand
  becomes the working hand and a copy is stored in the buffer slot at the cursor.
\<close>

definition observe_hand :: "card list \<Rightarrow> GameState \<Rightarrow> GameState" where
  "observe_hand parsed st =
     (let st = st\<lparr>hand := parsed\<rparr>;
          ptr = current_hand_ptr st
      in if ptr < length (all_hands st)
         then st\<lparr>all_hands := (all_hands st)[ptr := Some parsed]\<rparr>
         else st)"

definition play_turn :: "SushiGoBot \<Rightarrow> py_error + SushiGoBot" where
  "play_turn b =
     (case state b of
        None \<Rightarrow> Inl AttributeError
      | Some st \<Rightarrow>
          (let h = hand st
           in if h = [] then Inr b
              else
                py_bind (if has_chopsticks st then choose_chopsticks h st else Inr None)
                  (\<lambda>chop. case chop of
                     Some (idx1, idx2) \<Rightarrow>
                       py_bind (py_get h idx1) (\<lambda>c1.
                         let st = record_play c1 st
                         in py_bind (py_get h idx2) (\<lambda>c2.
                              let st = st\<lparr>my_tableau := my_tableau st @ [c2]\<rparr>;
                                  st = (if ''Chopsticks'' \<in> set (my_tableau st)
                                        then st\<lparr>my_tableau := remove1 ''Chopsticks'' (my_tableau st)\<rparr>
                                        else st)
                              in Inr (b\<lparr>state := Some st,
                                       sent := sent b @ [CHOPSTICKS idx1 idx2]\<rparr>)))
                   | None \<Rightarrow>
                       py_bind (choose_card h st) (\<lambda>card_index.
                         py_bind (py_get h card_index) (\<lambda>c.
                           Inr (b\<lparr>state := Some (record_play c st),
                                  sent := sent b @ [PLAY card_index]\<rparr>))))))"

section \<open>Server message handlers\<close>

definition handle_game_start :: "codec \<Rightarrow> string \<Rightarrow> GameState option \<Rightarrow> py_error + GameState option" where
  "handle_game_start cd message s =
     (let parts = py_split cd message
      in case s of
           None \<Rightarrow> Inr None
         | Some st \<Rightarrow>
             if length parts \<ge> 2 then
               py_bind (py_int cd (parts ! 1)) (\<lambda>n.
                 let st = st\<lparr>player_count := n\<rparr>;
                     st = st\<lparr>all_hands := replicate (nat (player_count st)) None\<rparr>
                 in Inr (Some st))
             else Inr (Some st))"

text \<open>
  \<open>handle_round_start\<close>. \<open>int(parts[1])\<close> is evaluated before \<open>self.state\<close> is read.
  \<open>[None] * n\<close> is the empty list for \<open>n \<le> 0\<close>, which \<open>nat\<close> gives too.
\<close>

definition handle_round_start :: "codec \<Rightarrow> string \<Rightarrow> GameState option \<Rightarrow> py_error + GameState option" where
  "handle_round_start cd message s =
     (let parts = py_split cd message
      in py_bind (py_get parts 1) (\<lambda>token.
         py_bind (py_int cd token) (\<lambda>r.
           case s of
             None \<Rightarrow> Inl AttributeError
           | Some st \<Rightarrow>
               (let st = st\<lparr>round := r\<rparr>;
                    st = st\<lparr>turn := 1\<rparr>;
                    st = st\<lparr>my_tableau := []\<rparr>;
                    st = st\<lparr>last_card_played := None\<rparr>;
                    st = st\<lparr>last_turn_reveals := []\<rparr>;
                    st = st\<lparr>current_hand_ptr := 0\<rparr>;
                    st = st\<lparr>all_hands := replicate (nat (max (player_count st) 1)) None\<rparr>;
                    st = st\<lparr>all_tableaux := []\<rparr>
                in Inr (Some st)))))"

text \<open>
  The loop of \<open>handle_played\<close> over \<open>reveals.items()\<close>: a player seen for the first time
  gets an empty tableau at the end of the dict, then the revealed cards are appended to
  the player's list in place.
\<close>

fun handle_played_loop :: "card list dict \<Rightarrow> card list dict \<Rightarrow> card list dict" where
  "handle_played_loop [] tabs = tabs"
| "handle_played_loop ((player, cards) # rest) tabs =
     (let tabs = (if player \<notin> fst ` set tabs then AList.update player [] tabs else tabs);
          tabs = AList.map_entry player (\<lambda>t. t @ cards) tabs
      in handle_played_loop rest tabs)"

definition handle_played :: "codec \<Rightarrow> string \<Rightarrow> GameState option \<Rightarrow> py_error + GameState option" where
  "handle_played cd message s =
     (let reveals = parse_played cd message
      in case s of
           None \<Rightarrow> Inl AttributeError
         | Some st \<Rightarrow>
             (let st = st\<lparr>last_turn_reveals := reveals\<rparr>;
                  st = st\<lparr>turn := turn st + 1\<rparr>;
                  st = st\<lparr>all_tableaux := handle_played_loop reveals (all_tableaux st)\<rparr>;
                  our_name = player_name st;
                  st = (case map_of (all_tableaux st) our_name of
                          Some t \<Rightarrow> st\<lparr>my_tableau := t\<rparr>
                        | None \<Rightarrow> st);
                  st = st\<lparr>current_hand_ptr := current_hand_ptr st + 1\<rparr>
              in Inr (Some st)))"

text \<open>
  \<open>handle_round_end\<close> and \<open>handle_game_end\<close> decode the scores only to print them and
  leave the bot as it is. Their \<open>except (json.JSONDecodeError, IndexError)\<close> clause
  swallows these two errors; any other error of \<open>json.loads\<close> leaves the handler.
\<close>

definition except_json_index :: "py_error + unit \<Rightarrow> py_error + unit" where
  "except_json_index m =
     (case m of
        Inl e \<Rightarrow> if e = JSONDecodeError \<or> e = IndexError then Inr () else Inl e
      | Inr u \<Rightarrow> Inr u)"

definition handle_round_end :: "codec \<Rightarrow> string \<Rightarrow> py_error + unit" where
  "handle_round_end cd message =
     (let parts = py_split_max cd message
      in if length parts \<ge> 3
         then except_json_index (py_bind (json_loads cd (parts ! 2)) (\<lambda>scores. Inr ()))
         else Inr ())"

definition handle_game_end :: "codec \<Rightarrow> string \<Rightarrow> py_error + unit" where
  "handle_game_end cd message =
     (let parts = py_split_max cd message
      in except_json_index
           (py_bind (if length parts > 1 then json_loads cd (parts ! 1) else Inr ()) (\<lambda>scores.
            py_bind (if length parts > 2 then json_loads cd (parts ! 2) else Inr ()) (\<lambda>winners.
              Inr ()))))"

section \<open>The per-game loop\<close>

text \<open>
  \<open>_play_game\<close>, reading from the list of messages that \<open>recv\<close> will return (stripped
  lines, in order); \<open>recv\<close> raises \<open>ConnectionError\<close> at the end of the stream. The
  result is the returned value, the bot and the messages not yet read.
\<close>

fun play_game :: "codec \<Rightarrow> SushiGoBot \<Rightarrow> string list \<Rightarrow> py_error + (string option \<times> SushiGoBot \<times> string list)" where
  "play_game cd b [] = Inl ConnectionError"
| "play_game cd b (msg # rest) =
     (if msg = [] then play_game cd b rest
      else if startswith msg ''TOURNAMENT_MATCH'' \<or> startswith msg ''TOURNAMENT_COMPLETE''
      then Inr (Some msg, b, rest)
      else if startswith msg ''GAME_END'' then
        (case handle_game_end cd msg of
           Inl e \<Rightarrow> Inl e
         | Inr u \<Rightarrow> Inr (None, b, rest))
      else if startswith msg ''GAME_START'' then
        (case handle_game_start cd msg (state b) of
           Inl e \<Rightarrow> Inl e
         | Inr s \<Rightarrow> play_game cd (b\<lparr>state := s\<rparr>) rest)
      else if startswith msg ''ROUND_START'' then
        (case handle_round_start cd msg (state b) of
           Inl e \<Rightarrow> Inl e
         | Inr s \<Rightarrow> play_game cd (b\<lparr>state := s\<rparr>) rest)
      else if startswith msg ''PLAYED'' then
        (case handle_played cd msg (state b) of
           Inl e \<Rightarrow> Inl e
         | Inr s \<Rightarrow> play_game cd (b\<lparr>state := s\<rparr>) rest)
      else if startswith msg ''ROUND_END'' then
        (case handle_round_end cd msg of
           Inl e \<Rightarrow> Inl e
         | Inr u \<Rightarrow> play_game cd b rest)
      else if startswith msg ''HAND'' then
        (let parsed = parse_hand cd msg
         in case state b of
              None \<Rightarrow> Inl AttributeError
            | Some st \<Rightarrow>
                (case play_turn (b\<lparr>state := Some (observe_hand parsed st)\<rparr>) of
                   Inl e \<Rightarrow> Inl e
                 | Inr b' \<Rightarrow> play_game cd b' rest))
      else play_game cd b rest)"

section \<open>The tournament loop\<close>

text \<open>
  \<open>recv\<close> and \<open>recv_until\<close> on the list of messages still to come; both raise
  \<open>ConnectionError\<close> when the stream ends.
\<close>

definition recv :: "string list \<Rightarrow> py_error + (string \<times> string list)" where
  "recv msgs = (case msgs of [] \<Rightarrow> Inl ConnectionError | msg # rest \<Rightarrow> Inr (msg, rest))"

fun recv_until :: "(string \<Rightarrow> bool) \<Rightarrow> string list \<Rightarrow> py_error + (string \<times> string list)" where
  "recv_until predicate [] = Inl ConnectionError"
| "recv_until predicate (msg # rest) =
     (if msg \<noteq> [] \<and> predicate msg then Inr (msg, rest) else recv_until predicate rest)"

text \<open>
  \<open>_join_tournament\<close>, \<open>_join_match\<close> and \<open>_leave_game\<close>: a command is sent, the
  answer awaited. \<open>_join_match\<close> builds a fresh game state from the \<open>WELCOME\<close> line and
  \<open>_leave_game\<close> drops the game state.
\<close>

definition join_tournament ::
  "codec \<Rightarrow> string \<Rightarrow> string \<Rightarrow> SushiGoBot \<Rightarrow> string list \<Rightarrow> py_error + (bool \<times> SushiGoBot \<times> string list)" where
  "join_tournament cd tournament_id name b msgs =
     (let b = b\<lparr>sent := sent b @ [TOURNEY tournament_id name]\<rparr>
      in case recv_until (\<lambda>m. startswith m ''TOURNAMENT_WELCOME'' \<or> startswith m ''ERROR'') msgs of
           Inl e \<Rightarrow> Inl e
         | Inr (response, rest) \<Rightarrow>
             if startswith response ''TOURNAMENT_WELCOME'' then Inr (True, b, rest)
             else Inr (False, b, rest))"

definition join_match ::
  "codec \<Rightarrow> string \<Rightarrow> string \<Rightarrow> SushiGoBot \<Rightarrow> string list \<Rightarrow> py_error + (bool \<times> SushiGoBot \<times> string list)" where
  "join_match cd match_token name b msgs =
     (let b = b\<lparr>sent := sent b @ [TJOIN match_token]\<rparr>
      in case recv_until (\<lambda>m. startswith m ''WELCOME'' \<or> startswith m ''ERROR'') msgs of
           Inl e \<Rightarrow> Inl e
         | Inr (response, rest) \<Rightarrow>
             if startswith response ''WELCOME'' then
               (let parts = py_split cd response
                in py_bind (py_get parts 1) (\<lambda>gid.
                   py_bind (py_get parts 2) (\<lambda>token.
                   py_bind (py_int cd token) (\<lambda>pid.
                     let rejoin = (if length parts > 3 then parts ! 3 else '''')
                     in Inr (True, b\<lparr>state := Some (new_GameState gid pid rejoin name)\<rparr>, rest)))))
             else Inr (False, b, rest))"

definition leave_game :: "SushiGoBot \<Rightarrow> string list \<Rightarrow> py_error + (SushiGoBot \<times> string list)" where
  "leave_game b msgs =
     (let b = b\<lparr>sent := sent b @ [LEAVE]\<rparr>
      in case recv_until (\<lambda>m. startswith m ''OK'' \<or> startswith m ''ERROR'') msgs of
           Inl e \<Rightarrow> Inl e
         | Inr (response, rest) \<Rightarrow> Inr (b\<lparr>state := None\<rparr>, rest))"

text \<open>
  \<open>msg = pending_message if pending_message else self.recv()\<close>: a buffered message
  (a non-empty string) is taken before the stream is read.
\<close>

definition next_message :: "string option \<Rightarrow> string list \<Rightarrow> py_error + (string \<times> string list)" where
  "next_message pending_message msgs =
     (case pending_message of
        Some m \<Rightarrow> if m \<noteq> [] then Inr (m, msgs) else recv msgs
      | None \<Rightarrow> recv msgs)"

text \<open>Every read takes at least one message off the stream.\<close>

lemma recv_until_shorter:
  "recv_until p msgs = Inr (m, rest) \<Longrightarrow> length rest < length msgs"
  by (induction msgs) (auto split: if_splits)

lemma play_game_shorter:
  "play_game cd b msgs = Inr (r, b', rest) \<Longrightarrow> length rest < length msgs"
proof (induction msgs arbitrary: b)
  case Nil
  then show ?case by simp
next
  case (Cons msg msgs)
  show ?case
    using Cons.prems Cons.IH
    by (auto simp: Let_def less_Suc_eq split: if_splits sum.splits option.splits)
qed

lemma join_match_shorter:
  "join_match cd t n b msgs = Inr (ok, b', rest) \<Longrightarrow> length rest < length msgs"
  by (auto simp: join_match_def Let_def py_bind_def
      split: sum.splits prod.splits if_splits dest: recv_until_shorter)

lemma leave_game_shorter:
  "leave_game b msgs = Inr (b', rest) \<Longrightarrow> length rest < length msgs"
  by (auto simp: leave_game_def Let_def split: sum.splits prod.splits dest: recv_until_shorter)

lemma next_message_cases:
  "next_message pending msgs = Inr (msg, rest) \<Longrightarrow>
   length rest < length msgs \<or> (rest = msgs \<and> pending = Some msg \<and> msg \<noteq> [])"
  by (auto simp: next_message_def recv_def split: option.splits if_splits list.splits)

text \<open>
  The \<open>while True\<close> loop of \<open>run_tournament\<close>. It ends on \<open>TOURNAMENT_COMPLETE\<close> or
  with the error that ends the stream; an iteration either shortens the stream or uses
  up the buffered message.
\<close>

function tournament_loop ::
  "codec \<Rightarrow> string \<Rightarrow> string option \<Rightarrow> SushiGoBot \<Rightarrow> string list \<Rightarrow> py_error + (SushiGoBot \<times> string list)" where
  "tournament_loop cd name pending_message b msgs =
     (case next_message pending_message msgs of
        Inl e \<Rightarrow> Inl e
      | Inr (msg, rest) \<Rightarrow>
          if msg = [] then tournament_loop cd name None b rest
          else if startswith msg ''TOURNAMENT_MATCH'' then
            (let parts = py_split cd msg
             in case py_get parts 2 of
                  Inl e \<Rightarrow> Inl e
                | Inr match_token \<Rightarrow>
                    (case py_get parts 3 of
                       Inl e \<Rightarrow> Inl e
                     | Inr round_num \<Rightarrow>
                         (let opponent = (if length parts > 4 then parts ! 4 else ''unknown'')
                          in if match_token = ''BYE'' \<or> opponent = ''BYE''
                             then tournament_loop cd name None b rest
                             else
                               (case join_match cd match_token name b rest of
                                  Inl e \<Rightarrow> Inl e
                                | Inr (joined, b1, rest1) \<Rightarrow>
                                    if \<not> joined then tournament_loop cd name None b1 rest1
                                    else
                                      (case play_game cd (b1\<lparr>sent := sent b1 @ [READY]\<rparr>) rest1 of
                                         Inl e \<Rightarrow> Inl e
                                       | Inr (pending, b2, rest2) \<Rightarrow>
                                           (case leave_game b2 rest2 of
                                              Inl e \<Rightarrow> Inl e
                                            | Inr (b3, rest3) \<Rightarrow>
                                                tournament_loop cd name pending b3 rest3))))))
          else if startswith msg ''TOURNAMENT_COMPLETE'' then Inr (b, rest)
          else tournament_loop cd name None b rest)"
  by pat_completeness auto
termination
  apply (relation "measures [\<lambda>(cd, n, p, b, msgs). length msgs,
                             \<lambda>(cd, n, p, b, msgs). (case p of Some m \<Rightarrow> if m \<noteq> [] then 1 else 0 | None \<Rightarrow> 0)]")
       apply simp
      apply (auto dest!: next_message_cases join_match_shorter play_game_shorter leave_game_shorter)
  done

definition run_tournament ::
  "codec \<Rightarrow> string \<Rightarrow> string \<Rightarrow> SushiGoBot \<Rightarrow> string list \<Rightarrow> py_error + (SushiGoBot \<times> string list)" where
  "run_tournament cd tournament_id name b msgs =
     (case join_tournament cd tournament_id name b msgs of
        Inl e \<Rightarrow> Inl e
      | Inr (joined, b, rest) \<Rightarrow>
          if \<not> joined then Inr (b, rest)
          else tournament_loop cd name None b rest)"

section \<open>The combo priority order, as the specification words it\<close>

text \<open>
  Written from the specification, to be compared with \<open>valid_combo\<close>: the fixed order
  Sashimi completion, Squid on Wasabi, Salmon on Wasabi, Tempura completion, Egg on
  Wasabi, and what it means for a card of the hand to complete a combo on the tableau.
\<close>

definition combo_priority :: "card list" where
  "combo_priority = [''Sashimi'', ''Squid Nigiri'', ''Salmon Nigiri'', ''Tempura'', ''Egg Nigiri'']"

definition completes_combo :: "GameState \<Rightarrow> card list \<Rightarrow> card \<Rightarrow> bool" where
  "completes_combo st h c =
     (c \<in> set h \<and>
      (if c = ''Sashimi'' then count_list (my_tableau st) ''Sashimi'' mod 3 = 2
       else if c = ''Tempura'' then count_list (my_tableau st) ''Tempura'' mod 2 = 1
       else if c \<in> {''Squid Nigiri'', ''Salmon Nigiri'', ''Egg Nigiri''} then has_unused_wasabi st
       else False))"

section \<open>Concrete instances\<close>

text \<open>
  A decoder that gives every line the same decoding, and a game state in the middle of a
  two-player round; both serve to apply the theorems below to concrete messages.
\<close>

definition fixed_codec :: "string list \<Rightarrow> int \<Rightarrow> card list \<Rightarrow> card list dict \<Rightarrow> codec" where
  "fixed_codec parts n h reveals =
     \<lparr> py_split = (\<lambda>_. parts), py_int = (\<lambda>_. Inr n),
       parse_hand = (\<lambda>_. h), parse_played = (\<lambda>_. reveals),
       py_split_max = (\<lambda>_. parts), json_loads = (\<lambda>_. Inr ()) \<rparr>"

definition mid_game_state :: GameState where
  "mid_game_state =
     (new_GameState ''m1'' 0 '''' ''Bot01'')
       \<lparr> player_count := 2,
         all_hands := [Some [''Sashimi'', ''Tempura'', ''Tempura''], None],
         my_tableau := [''Tempura''],
         all_tableaux := [(''Bot01'', [''Tempura'']), (''Bob'', [''Pudding''])],
         last_card_played := Some ''Tempura'',
         last_turn_reveals := [(''Bot01'', [''Tempura'']), (''Bob'', [''Pudding''])],
         turn := 2 \<rparr>"

section \<open>Auxiliary predicates\<close>

text \<open>A rule of \<open>choose_card\<close> falls through or returns an index into the hand.\<close>

definition rule_in_range :: "'a list \<Rightarrow> py_error + nat option \<Rightarrow> bool" where
  "rule_in_range h r = (r = Inr None \<or> (\<exists>i. i < length h \<and> r = Inr (Some i)))"

text \<open>
  A rule of \<open>chopstick_combo\<close> falls through or returns two indices into the hand, the
  second of which is not a Wasabi.
\<close>

definition pair_in_range :: "card list \<Rightarrow> py_error + (nat \<times> nat) option \<Rightarrow> bool" where
  "pair_in_range h r =
     (r = Inr None \<or>
      (\<exists>i j. r = Inr (Some (i, j)) \<and> i < length h \<and> j < length h \<and> h ! j \<noteq> ''Wasabi''))"

section \<open>Lemmas\<close>

lemma occurances_loop_count: "occurances_loop h c res = res + count_list h c"
  by (induction h arbitrary: res) auto

lemma occurances_count: "occurances h c = count_list h c"
  by (simp add: occurances_def occurances_loop_count)

lemma py_index_member:
  "c \<in> set h \<Longrightarrow> \<exists>i. py_index h c = Inr i \<and> i < length h \<and> h ! i = c \<and> c \<notin> set (take i h)"
proof (induction h)
  case Nil
  then show ?case by simp
next
  case (Cons y ys)
  show ?case
  proof (cases "y = c")
    case True
    then show ?thesis by simp
  next
    case False
    with Cons.prems have "c \<in> set ys" by simp
    from Cons.IH [OF this] obtain i where
      "py_index ys c = Inr i" "i < length ys" "ys ! i = c" "c \<notin> set (take i ys)" by blast
    with False show ?thesis by simp
  qed
qed

lemma valid_combo_subset: "set (valid_combo st h t) \<subseteq> set h"
  by (auto simp: valid_combo_def Let_def)

lemma enumerate_filter_index:
  "i \<in> set (map fst (filter (\<lambda>(i, c). c = x) (enumerate 0 h))) \<Longrightarrow> i < length h \<and> h ! i = x"
  by (auto simp: in_set_enumerate_eq)

lemma rule_in_range_falls: "rule_in_range h falls_through"
  by (simp add: rule_in_range_def falls_through_def)

lemma rule_in_range_index: "c \<in> set h \<Longrightarrow> rule_in_range h (returns (py_index h c))"
  using py_index_member [of c h] by (auto simp: rule_in_range_def returns_def)

lemma rule_in_range_if:
  "rule_in_range h (if b \<and> c \<in> set h then returns (py_index h c) else falls_through)"
  by (simp add: rule_in_range_falls rule_in_range_index)

lemma rule_in_range_if1:
  "rule_in_range h (if c \<in> set h then returns (py_index h c) else falls_through)"
  by (simp add: rule_in_range_falls rule_in_range_index)

lemma first_return_in_range_Nil: "rule_in_range h (first_return [])"
  by (simp add: rule_in_range_def)

lemma first_return_in_range_Cons:
  "rule_in_range h r \<Longrightarrow> rule_in_range h (first_return rs) \<Longrightarrow>
   rule_in_range h (first_return (r # rs))"
  by (auto simp: rule_in_range_def)

lemma pudding_condition_total:
  "cs \<noteq> [] \<Longrightarrow> \<exists>b. pudding_condition p t cs = Inr b"
  by (cases cs) (auto simp: pudding_condition_def py_bind_def)

lemma pudding_rule_in_range:
  "rule_in_range h
     (if cs = [] then falls_through
      else py_bind (pudding_condition p t cs)
             (\<lambda>b. if b then (if c \<in> set h then returns (py_index h c) else falls_through)
                   else falls_through))"
proof (cases "cs = []")
  case True
  then show ?thesis by (simp add: rule_in_range_falls)
next
  case False
  then obtain b where "pudding_condition p t cs = Inr b"
    using pudding_condition_total by blast
  with False show ?thesis
    by (simp add: py_bind_def rule_in_range_falls rule_in_range_index)
qed

lemma combo_rule_in_range:
  "rule_in_range h
     (case valid_combo st h t of [] \<Rightarrow> falls_through | c # _ \<Rightarrow> returns (py_index h c))"
proof (cases "valid_combo st h t")
  case Nil
  then show ?thesis by (simp add: rule_in_range_falls)
next
  case (Cons c cs)
  then have "c \<in> set h" using valid_combo_subset [of st h t] by auto
  with Cons show ?thesis by (simp add: rule_in_range_index)
qed

lemma finish_in_range:
  "rule_in_range h r \<Longrightarrow> h \<noteq> [] \<Longrightarrow>
   \<exists>i. (case r of Inl e \<Rightarrow> Inl e | Inr (Some i) \<Rightarrow> Inr i | Inr None \<Rightarrow> Inr 0) = Inr i
       \<and> i < length h"
  by (auto simp: rule_in_range_def)

lemma pudding_condition_const:
  "cs \<noteq> [] \<Longrightarrow> py_bind (pudding_condition p t cs) (\<lambda>b. k) = k"
  using pudding_condition_total [of cs p t] by (auto simp: py_bind_def)

lemma completes_combo_cases:
  "completes_combo st h ''Sashimi'' =
     (''Sashimi'' \<in> set h \<and> count_list (my_tableau st) ''Sashimi'' mod 3 = 2)"
  "completes_combo st h ''Squid Nigiri'' = (''Squid Nigiri'' \<in> set h \<and> has_unused_wasabi st)"
  "completes_combo st h ''Salmon Nigiri'' = (''Salmon Nigiri'' \<in> set h \<and> has_unused_wasabi st)"
  "completes_combo st h ''Tempura'' =
     (''Tempura'' \<in> set h \<and> count_list (my_tableau st) ''Tempura'' mod 2 = 1)"
  "completes_combo st h ''Egg Nigiri'' = (''Egg Nigiri'' \<in> set h \<and> has_unused_wasabi st)"
  by (simp_all add: completes_combo_def)

lemma append_if_step: "(if b then res @ [c] else res) = res @ (if b then [c] else [])"
  by simp

lemma valid_combo_appends:
  "valid_combo st h t =
     (if occurances t ''Sashimi'' mod 3 = 2 \<and> ''Sashimi'' \<in> set h then [''Sashimi''] else [])
   @ (if has_unused_wasabi st \<and> ''Squid Nigiri'' \<in> set h then [''Squid Nigiri''] else [])
   @ (if has_unused_wasabi st \<and> ''Salmon Nigiri'' \<in> set h then [''Salmon Nigiri''] else [])
   @ (if occurances t ''Tempura'' mod 2 = 1 \<and> ''Tempura'' \<in> set h then [''Tempura''] else [])
   @ (if has_unused_wasabi st \<and> ''Egg Nigiri'' \<in> set h then [''Egg Nigiri''] else [])"
  unfolding valid_combo_def Let_def append_if_step
  by (simp only: append_Nil append_assoc)

lemma filter_singleton_if: "filter P [x] = (if P x then [x] else [])"
  by simp

lemma combo_priority_appends:
  "combo_priority = [''Sashimi''] @ [''Squid Nigiri''] @ [''Salmon Nigiri'']
          @ [''Tempura''] @ [''Egg Nigiri'']"
  by (simp add: combo_priority_def)

lemma valid_combo_filter:
  "valid_combo st h (my_tableau st) = filter (completes_combo st h) combo_priority"
  unfolding valid_combo_appends combo_priority_appends filter_append filter_singleton_if
    completes_combo_cases occurances_count
  by (simp only: conj_commute)

lemma pair_in_range_falls: "pair_in_range h falls_through"
  by (simp add: pair_in_range_def falls_through_def)

lemma pair_first_return_Nil: "pair_in_range h (first_return [])"
  by (simp add: pair_in_range_def)

lemma pair_first_return_Cons:
  "pair_in_range h r \<Longrightarrow> pair_in_range h (first_return rs) \<Longrightarrow>
   pair_in_range h (first_return (r # rs))"
  by (auto simp: pair_in_range_def)

lemma pair_wasabi_rule:
  assumes "c \<noteq> ''Wasabi''"
  shows "pair_in_range h
     (if ''Wasabi'' \<in> set h \<and> c \<in> set h
      then returns (index_pair (py_index h ''Wasabi'') (py_index h c))
      else falls_through)"
proof (cases "''Wasabi'' \<in> set h \<and> c \<in> set h")
  case False
  then show ?thesis by (auto simp: pair_in_range_falls)
next
  case True
  then obtain i j where
    "py_index h ''Wasabi'' = Inr i" "i < length h"
    "py_index h c = Inr j" "j < length h" "h ! j = c"
    using py_index_member [of "''Wasabi''" h] py_index_member [of c h] by blast
  with True assms show ?thesis
    by (simp add: pair_in_range_def returns_def index_pair_def py_bind_def)
qed

lemma pair_from_indices:
  assumes "\<forall>i \<in> set ixs. i < length h \<and> h ! i = c" and "c \<noteq> ''Wasabi''"
  shows "pair_in_range h
     (if length ixs \<ge> 2 then returns (index_pair (py_get ixs 0) (py_get ixs 1))
      else falls_through)"
proof (cases ixs)
  case Nil
  then show ?thesis by (simp add: pair_in_range_falls)
next
  case (Cons a rest)
  show ?thesis
  proof (cases rest)
    case Nil
    with Cons show ?thesis by (simp add: pair_in_range_falls)
  next
    case (Cons b rest')
    with \<open>ixs = a # rest\<close> assms show ?thesis
      by (simp add: pair_in_range_def returns_def index_pair_def py_bind_def py_get_def)
  qed
qed

lemma pair_double_rule:
  assumes "c \<noteq> ''Wasabi''"
  shows "pair_in_range h
     (if b then
        (let ixs = map fst (filter (\<lambda>(i, x). x = c) (enumerate 0 h))
         in if length ixs \<ge> 2
            then returns (index_pair (py_get ixs 0) (py_get ixs 1))
            else falls_through)
      else falls_through)"
proof (cases b)
  case False
  then show ?thesis by (simp add: pair_in_range_falls)
next
  case True
  have "\<forall>i \<in> set (map fst (filter (\<lambda>(i, x). x = c) (enumerate 0 h))). i < length h \<and> h ! i = c"
  proof (intro ballI)
    fix i
    assume "i \<in> set (map fst (filter (\<lambda>(i, x). x = c) (enumerate 0 h)))"
    then show "i < length h \<and> h ! i = c" by (rule enumerate_filter_index)
  qed
  from pair_from_indices [OF this assms] True show ?thesis
    unfolding Let_def by (simp only: if_True)
qed

lemma chopstick_combo_in_range: "pair_in_range h (chopstick_combo h st)"
proof (cases "has_chopsticks st")
  case False
  then show ?thesis by (simp add: chopstick_combo_def pair_in_range_def)
next
  case True
  have s: "''Sashimi'' \<noteq> ''Wasabi''" and t: "''Tempura'' \<noteq> ''Wasabi''"
    and q: "''Squid Nigiri'' \<noteq> ''Wasabi''" and l: "''Salmon Nigiri'' \<noteq> ''Wasabi''"
    and e: "''Egg Nigiri'' \<noteq> ''Wasabi''" by simp_all
  show ?thesis
    unfolding chopstick_combo_def
    using True
    apply (simp only: not_True_eq_False if_False)
    apply (intro pair_first_return_Cons pair_first_return_Nil
        pair_wasabi_rule [OF q] pair_wasabi_rule [OF l] pair_wasabi_rule [OF e]
        pair_double_rule [OF s] pair_double_rule [OF t])
    done
qed

lemma should_grab_chopsticks_next_hand:
  assumes "''Chopsticks'' \<in> set h" and "\<not> has_chopsticks st"
  shows "should_grab_chopsticks h st =
     (case next_hand st of
        None \<Rightarrow> False
      | Some nh \<Rightarrow>
          (''Wasabi'' \<in> set nh \<and>
             (''Egg Nigiri'' \<in> set nh \<or> ''Salmon Nigiri'' \<in> set nh \<or> ''Squid Nigiri'' \<in> set nh))
          \<or> count_list nh ''Sashimi'' \<ge> 2
          \<or> count_list nh ''Tempura'' \<ge> 2)"
proof (cases "next_hand st")
  case None
  with assms show ?thesis by (simp add: should_grab_chopsticks_def)
next
  case (Some nh)
  with assms show ?thesis by (simp add: should_grab_chopsticks_def)
qed

lemma length_remove1_member: "c \<in> set xs \<Longrightarrow> length (remove1 c xs) + 1 = length xs"
  by (induction xs) auto

lemma count_list_remove1_member:
  "c \<in> set xs \<Longrightarrow> count_list (remove1 c xs) c + 1 = count_list xs c"
  by (induction xs) auto

lemma handle_played_step:
  "map_of (AList.map_entry player (\<lambda>t. t @ cards)
            (if player \<notin> fst ` set tabs then AList.update player [] tabs else tabs))
   = (map_of tabs)(player \<mapsto> (case map_of tabs player of None \<Rightarrow> [] | Some t \<Rightarrow> t) @ cards)"
proof (cases "map_of tabs player")
  case None
  then have "player \<notin> fst ` set tabs" by (simp add: map_of_eq_None_iff)
  with None show ?thesis
    by (simp add: map_of_map_entry update_conv')
next
  case (Some t)
  then have "player \<in> fst ` set tabs" by (metis map_of_eq_None_iff option.distinct(1))
  with Some show ?thesis
    by (simp add: map_of_map_entry)
qed

lemma handle_played_loop_lookup:
  "distinct (map fst reveals) \<Longrightarrow>
   map_of (handle_played_loop reveals tabs) p =
     (case map_of reveals p of
        None \<Rightarrow> map_of tabs p
      | Some cards \<Rightarrow> Some ((case map_of tabs p of None \<Rightarrow> [] | Some t \<Rightarrow> t) @ cards))"
proof (induction reveals arbitrary: tabs)
  case Nil
  then show ?case by simp
next
  case (Cons e reveals)
  obtain player cards where e: "e = (player, cards)" by (cases e)
  from Cons.prems e have d: "distinct (map fst reveals)" and np: "player \<notin> fst ` set reveals"
    by auto
  from np have none: "map_of reveals player = None" by (simp add: map_of_eq_None_iff)
  show ?case
    unfolding e handle_played_loop.simps Let_def Cons.IH [OF d] handle_played_step
    using none by (auto split: option.splits)
qed

lemma startswith_complete_not_match:
  "startswith msg ''TOURNAMENT_COMPLETE'' \<Longrightarrow> \<not> startswith msg ''TOURNAMENT_MATCH''"
proof
  assume c: "startswith msg ''TOURNAMENT_COMPLETE''" and m: "startswith msg ''TOURNAMENT_MATCH''"
  have "take (length ''TOURNAMENT_MATCH'') (take (length ''TOURNAMENT_COMPLETE'') msg)
          = take (length ''TOURNAMENT_MATCH'') msg"
    by (simp add: min_def)
  with c m have "take (length ''TOURNAMENT_MATCH'') ''TOURNAMENT_COMPLETE'' = ''TOURNAMENT_MATCH''"
    by (simp only: startswith_def)
  then show False by simp
qed

lemma tournament_loop_same_next:
  assumes "next_message p msgs = next_message p' msgs'"
  shows "tournament_loop cd name p b msgs = tournament_loop cd name p' b msgs'"
  by (simp only: tournament_loop.simps [of cd name p b msgs]
        tournament_loop.simps [of cd name p' b msgs'] assms)

section \<open>Properties\<close>

text \<open>
  C1 (as amended). With hand \<open>["Wasabi", "Squid Nigiri"]\<close>, no unused Wasabi on the
  tableau and no Chopsticks in hand or tableau, no combo rule applies; the Nigiri-count
  rule does not apply either, since it needs two Nigiri in hand and the hand holds one;
  \<open>choose_card\<close> reaches the Nigiri rule and returns the index of Squid Nigiri, 1.
\<close>

theorem choose_card_wasabi_squid:
  "\<not> has_unused_wasabi st \<Longrightarrow> \<not> has_chopsticks st \<Longrightarrow>
   valid_combo st [''Wasabi'', ''Squid Nigiri''] (my_tableau st) = []
   \<and> choose_card [''Wasabi'', ''Squid Nigiri''] st = Inr 1"
proof -
  assume nw: "\<not> has_unused_wasabi st"
  have combos: "valid_combo st [''Wasabi'', ''Squid Nigiri''] (my_tableau st) = []"
    using nw by (simp add: valid_combo_def)
  have grab: "\<not> should_grab_chopsticks [''Wasabi'', ''Squid Nigiri''] st"
    by (simp add: should_grab_chopsticks_def)
  have "choose_card [''Wasabi'', ''Squid Nigiri''] st = Inr 1"
    unfolding choose_card_def Let_def combos
    by (simp add: grab pudding_condition_const falls_through_def returns_def)
  with combos show ?thesis by simp
qed

theorem choose_card_wasabi_squid_witness:
  "\<not> has_unused_wasabi (new_GameState ''abc123'' 0 '''' ''Bot01'')
   \<and> \<not> has_chopsticks (new_GameState ''abc123'' 0 '''' ''Bot01'')
   \<and> choose_card [''Wasabi'', ''Squid Nigiri''] (new_GameState ''abc123'' 0 '''' ''Bot01'') = Inr 1"
proof -
  have a: "\<not> has_unused_wasabi (new_GameState ''abc123'' 0 '''' ''Bot01'')"
    by (simp add: has_unused_wasabi_def count_def new_GameState_def)
  have b: "\<not> has_chopsticks (new_GameState ''abc123'' 0 '''' ''Bot01'')"
    by (simp add: has_chopsticks_def new_GameState_def)
  show ?thesis using a b choose_card_wasabi_squid [OF a b] by simp
qed

text \<open>
  The claim as first stated has \<open>choose_card\<close> return index 0 (Wasabi) on this hand. On
  a freshly joined game state the hypotheses hold and the result is not 0.
\<close>

theorem choose_card_wasabi_squid_counterexample:
  "\<not> has_unused_wasabi (new_GameState ''abc123'' 0 '''' ''Bot01'')
   \<and> \<not> has_chopsticks (new_GameState ''abc123'' 0 '''' ''Bot01'')
   \<and> ''Chopsticks'' \<notin> set [''Wasabi'', ''Squid Nigiri'']
   \<and> choose_card [''Wasabi'', ''Squid Nigiri''] (new_GameState ''abc123'' 0 '''' ''Bot01'') \<noteq> Inr 0"
  by (simp add: has_unused_wasabi_def has_chopsticks_def count_def new_GameState_def
        choose_card_def valid_combo_def occurances_def should_grab_chopsticks_def
        falls_through_def returns_def)

text \<open>
  C2. When single-card combo completions are playable, \<open>choose_card\<close> returns the
  (first) index of the first playable card in the order Sashimi completion, Squid on
  Wasabi, Salmon on Wasabi, Tempura completion, Egg on Wasabi. With hand
  \<open>["Tempura", "Sashimi", "Pudding"]\<close> and own tableau \<open>["Sashimi", "Sashimi"]\<close> it
  returns index 1, whatever the pudding and maki rules would say.
\<close>

theorem choose_card_combo_priority:
  "(filter (completes_combo st h) combo_priority = c # cs \<longrightarrow>
      (\<exists>i. choose_card h st = Inr i \<and> i < length h \<and> h ! i = c \<and> c \<notin> set (take i h)))
   \<and> (my_tableau st = [''Sashimi'', ''Sashimi''] \<longrightarrow>
        choose_card [''Tempura'', ''Sashimi'', ''Pudding''] st = Inr 1)"
proof (intro conjI impI)
  assume f: "filter (completes_combo st h) combo_priority = c # cs"
  then have vc: "valid_combo st h (my_tableau st) = c # cs"
    by (simp add: valid_combo_filter)
  have "c \<in> set (filter (completes_combo st h) combo_priority)" using f by simp
  then have "c \<in> set h" by (simp add: completes_combo_def)
  from py_index_member [OF this] obtain i where
    i: "py_index h c = Inr i" "i < length h" "h ! i = c" "c \<notin> set (take i h)" by blast
  have "choose_card h st = Inr i"
    unfolding choose_card_def Let_def vc by (simp add: i returns_def)
  with i show "\<exists>i. choose_card h st = Inr i \<and> i < length h \<and> h ! i = c \<and> c \<notin> set (take i h)"
    by blast
next
  assume t: "my_tableau st = [''Sashimi'', ''Sashimi'']"
  have vc: "\<exists>cs. valid_combo st [''Tempura'', ''Sashimi'', ''Pudding''] (my_tableau st) = ''Sashimi'' # cs"
    by (simp add: valid_combo_def t occurances_def)
  then obtain cs where "valid_combo st [''Tempura'', ''Sashimi'', ''Pudding''] (my_tableau st) = ''Sashimi'' # cs" ..
  then show "choose_card [''Tempura'', ''Sashimi'', ''Pudding''] st = Inr 1"
    unfolding choose_card_def Let_def by (simp add: returns_def)
qed

theorem choose_card_combo_priority_witness:
  "filter (completes_combo ((new_GameState ''abc123'' 0 '''' ''Bot01'')\<lparr>my_tableau := [''Sashimi'', ''Sashimi'']\<rparr>)
      [''Tempura'', ''Sashimi'', ''Pudding'']) combo_priority = [''Sashimi'']
   \<and> my_tableau ((new_GameState ''abc123'' 0 '''' ''Bot01'')\<lparr>my_tableau := [''Sashimi'', ''Sashimi'']\<rparr>)
       = [''Sashimi'', ''Sashimi'']
   \<and> choose_card [''Tempura'', ''Sashimi'', ''Pudding'']
       ((new_GameState ''abc123'' 0 '''' ''Bot01'')\<lparr>my_tableau := [''Sashimi'', ''Sashimi'']\<rparr>) = Inr 1"
proof -
  let ?s = "(new_GameState ''abc123'' 0 '''' ''Bot01'')\<lparr>my_tableau := [''Sashimi'', ''Sashimi'']\<rparr>"
  have f: "filter (completes_combo ?s [''Tempura'', ''Sashimi'', ''Pudding'']) combo_priority = [''Sashimi'']"
    by (simp add: completes_combo_cases combo_priority_def has_unused_wasabi_def count_def)
  have t: "my_tableau ?s = [''Sashimi'', ''Sashimi'']" by simp
  show ?thesis
    using f t choose_card_combo_priority [of ?s "[''Tempura'', ''Sashimi'', ''Pudding'']" "''Sashimi''" "[]"]
    by simp
qed

text \<open>
  C3. Whenever the two-card chooser returns a pair of indices, both are indices of the
  hand, the card at the second index is never Wasabi, and so a Wasabi among the two
  selected cards is at the first index.
\<close>

theorem choose_chopsticks_wasabi_first:
  "choose_chopsticks h st = Inr (Some (i, j)) \<Longrightarrow>
   i < length h \<and> j < length h \<and> h ! j \<noteq> ''Wasabi''
   \<and> (h ! i = ''Wasabi'' \<or> h ! j = ''Wasabi'' \<longrightarrow> h ! i = ''Wasabi'')"
proof -
  assume a: "choose_chopsticks h st = Inr (Some (i, j))"
  then have "chopstick_combo h st = Inr (Some (i, j))"
    by (auto simp: choose_chopsticks_def py_bind_def split: sum.splits option.splits)
  with chopstick_combo_in_range [of h st] show ?thesis
    by (auto simp: pair_in_range_def)
qed

theorem choose_chopsticks_wasabi_first_witness:
  "choose_chopsticks [''Squid Nigiri'', ''Wasabi'']
     ((new_GameState ''abc123'' 0 '''' ''Bot01'')\<lparr>my_tableau := [''Chopsticks'']\<rparr>)
     = Inr (Some (1, 0))
   \<and> [''Squid Nigiri'', ''Wasabi''] ! 1 = ''Wasabi''
   \<and> [''Squid Nigiri'', ''Wasabi''] ! 0 \<noteq> ''Wasabi''"
proof -
  let ?s = "(new_GameState ''abc123'' 0 '''' ''Bot01'')\<lparr>my_tableau := [''Chopsticks'']\<rparr>"
  have r: "choose_chopsticks [''Squid Nigiri'', ''Wasabi''] ?s = Inr (Some (1, 0))"
    by (simp add: choose_chopsticks_def chopstick_combo_def has_chopsticks_def
          new_GameState_def occurances_def py_bind_def returns_def falls_through_def
          index_pair_def)
  show ?thesis
    using r choose_chopsticks_wasabi_first [OF r] by simp
qed

text \<open>
  C4. When the hand holds Chopsticks and the own tableau does not,
  \<open>should_grab_chopsticks\<close> is true exactly when the next hand is known and holds
  Wasabi together with a Nigiri variant, or at least two Sashimi, or at least two
  Tempura; it is false when the slot after the cursor is outside the buffer or still
  \<open>None\<close>.
\<close>

theorem should_grab_chopsticks_iff:
  assumes "''Chopsticks'' \<in> set h" and "''Chopsticks'' \<notin> set (my_tableau st)"
  shows "should_grab_chopsticks h st =
     (case next_hand st of
        None \<Rightarrow> False
      | Some nh \<Rightarrow>
          (''Wasabi'' \<in> set nh \<and>
             (''Egg Nigiri'' \<in> set nh \<or> ''Salmon Nigiri'' \<in> set nh \<or> ''Squid Nigiri'' \<in> set nh))
          \<or> count_list nh ''Sashimi'' \<ge> 2
          \<or> count_list nh ''Tempura'' \<ge> 2)
   \<and> (length (all_hands st) \<le> current_hand_ptr st + 1
        \<or> all_hands st ! (current_hand_ptr st + 1) = None
      \<longrightarrow> \<not> should_grab_chopsticks h st)"
proof -
  have nc: "\<not> has_chopsticks st" using assms(2) by (simp add: has_chopsticks_def)
  note eq = should_grab_chopsticks_next_hand [OF assms(1) nc]
  have "length (all_hands st) \<le> current_hand_ptr st + 1
        \<or> all_hands st ! (current_hand_ptr st + 1) = None \<Longrightarrow> next_hand st = None"
    by (auto simp: next_hand_def)
  then have "length (all_hands st) \<le> current_hand_ptr st + 1
        \<or> all_hands st ! (current_hand_ptr st + 1) = None
      \<longrightarrow> \<not> should_grab_chopsticks h st"
    by (simp add: eq)
  with eq show ?thesis by blast
qed

theorem should_grab_chopsticks_iff_witness:
  "should_grab_chopsticks [''Chopsticks'', ''Tempura'']
     ((new_GameState ''abc123'' 0 '''' ''Bot01'')
        \<lparr>all_hands := [Some [''Chopsticks'', ''Tempura''], Some [''Wasabi'', ''Egg Nigiri'']]\<rparr>)
   \<and> \<not> should_grab_chopsticks [''Chopsticks'', ''Tempura'']
     ((new_GameState ''abc123'' 0 '''' ''Bot01'')
        \<lparr>all_hands := [Some [''Chopsticks'', ''Tempura''], None]\<rparr>)"
proof -
  let ?h = "[''Chopsticks'', ''Tempura'']"
  let ?s = "(new_GameState ''abc123'' 0 '''' ''Bot01'')
        \<lparr>all_hands := [Some [''Chopsticks'', ''Tempura''], Some [''Wasabi'', ''Egg Nigiri'']]\<rparr>"
  let ?u = "(new_GameState ''abc123'' 0 '''' ''Bot01'')
        \<lparr>all_hands := [Some [''Chopsticks'', ''Tempura''], None]\<rparr>"
  have c: "''Chopsticks'' \<in> set ?h" by simp
  have ts: "''Chopsticks'' \<notin> set (my_tableau ?s)" by (simp add: new_GameState_def)
  have tu: "''Chopsticks'' \<notin> set (my_tableau ?u)" by (simp add: new_GameState_def)
  have ns: "next_hand ?s = Some [''Wasabi'', ''Egg Nigiri'']"
    by (simp add: next_hand_def new_GameState_def)
  have nu: "all_hands ?u ! (current_hand_ptr ?u + 1) = None"
    by (simp add: new_GameState_def)
  have a: "should_grab_chopsticks ?h ?s"
    using should_grab_chopsticks_iff [OF c ts, THEN conjunct1] ns by simp
  have b: "\<not> should_grab_chopsticks ?h ?u"
    using should_grab_chopsticks_iff [OF c tu, THEN conjunct2] nu by blast
  show ?thesis using a b by (rule conjI)
qed

text \<open>
  C5 (as amended). A \<open>TOURNAMENT_MATCH\<close> or \<open>TOURNAMENT_COMPLETE\<close> message read by the
  per-game loop ends that loop at once: \<open>_play_game\<close> returns the message with the bot
  unchanged and every later message, \<open>GAME_END\<close> included, still unread. When the
  per-game loop of a joined match returns such a message, the tournament loop keeps it,
  sends \<open>LEAVE\<close>, reads and discards lines up to the first \<open>OK\<close> or \<open>ERROR\<close> (the run
  ends with the stream's error when there is none), drops the game state, and then
  handles the kept message exactly as if it were the next line of the stream, before
  any further line; on \<open>TOURNAMENT_COMPLETE\<close> it ends there.
\<close>

theorem play_game_returns_tournament_message:
  assumes "startswith msg ''TOURNAMENT_MATCH'' \<or> startswith msg ''TOURNAMENT_COMPLETE''"
  shows "play_game cd b (msg # rest) = Inr (Some msg, b, rest)
     \<and> (next_message p msgs = Inr (a, rest0)
        \<and> startswith a ''TOURNAMENT_MATCH''
        \<and> py_get (py_split cd a) 2 = Inr match_token
        \<and> py_get (py_split cd a) 3 = Inr round_num
        \<and> match_token \<noteq> ''BYE''
        \<and> (if length (py_split cd a) > 4 then py_split cd a ! 4 else ''unknown'') \<noteq> ''BYE''
        \<and> join_match cd match_token name b0 rest0 = Inr (True, b1, rest1)
        \<and> play_game cd (b1\<lparr>sent := sent b1 @ [READY]\<rparr>) rest1 = Inr (Some msg, b2, rest2)
       \<longrightarrow> tournament_loop cd name p b0 msgs =
            (case recv_until (\<lambda>m. startswith m ''OK'' \<or> startswith m ''ERROR'') rest2 of
               Inl e \<Rightarrow> Inl e
             | Inr (response, rest3) \<Rightarrow>
                 tournament_loop cd name (Some msg)
                   (b2\<lparr>sent := sent b2 @ [LEAVE], state := None\<rparr>) rest3)
          \<and> tournament_loop cd name p b0 msgs =
            (case recv_until (\<lambda>m. startswith m ''OK'' \<or> startswith m ''ERROR'') rest2 of
               Inl e \<Rightarrow> Inl e
             | Inr (response, rest3) \<Rightarrow>
                 tournament_loop cd name None
                   (b2\<lparr>sent := sent b2 @ [LEAVE], state := None\<rparr>) (msg # rest3))
          \<and> (startswith msg ''TOURNAMENT_COMPLETE'' \<longrightarrow>
               tournament_loop cd name p b0 msgs =
                 (case recv_until (\<lambda>m. startswith m ''OK'' \<or> startswith m ''ERROR'') rest2 of
                    Inl e \<Rightarrow> Inl e
                  | Inr (response, rest3) \<Rightarrow>
                      Inr (b2\<lparr>sent := sent b2 @ [LEAVE], state := None\<rparr>, rest3))))
     \<and> next_message (Some msg) later = Inr (msg, later)
     \<and> tournament_loop cd name (Some msg) b3 later = tournament_loop cd name None b3 (msg # later)
     \<and> (startswith msg ''TOURNAMENT_COMPLETE'' \<longrightarrow>
          tournament_loop cd name (Some msg) b3 later = Inr (b3, later))"
proof -
  let ?left = "b2\<lparr>sent := sent b2 @ [LEAVE], state := None\<rparr>"
  let ?ok = "\<lambda>m. startswith m ''OK'' \<or> startswith m ''ERROR''"
  have ne: "msg \<noteq> []" using assms by (auto simp: startswith_def)
  with assms have A: "play_game cd b (msg # rest) = Inr (Some msg, b, rest)" by simp
  have nm: "\<And>later. next_message (Some msg) later = Inr (msg, later)"
    using ne by (simp add: next_message_def)
  have C: "\<And>b3 later. tournament_loop cd name (Some msg) b3 later
      = tournament_loop cd name None b3 (msg # later)"
  proof -
    fix b3 later
    have "next_message (Some msg) later = next_message None (msg # later)"
      by (simp add: nm) (simp add: next_message_def recv_def)
    then show "tournament_loop cd name (Some msg) b3 later
      = tournament_loop cd name None b3 (msg # later)"
      by (rule tournament_loop_same_next)
  qed
  have D: "\<And>b3 later. startswith msg ''TOURNAMENT_COMPLETE'' \<Longrightarrow>
          tournament_loop cd name (Some msg) b3 later = Inr (b3, later)"
  proof -
    fix b3 later
    assume tc: "startswith msg ''TOURNAMENT_COMPLETE''"
    then have nmt: "\<not> startswith msg ''TOURNAMENT_MATCH''"
      by (rule startswith_complete_not_match)
    show "tournament_loop cd name (Some msg) b3 later = Inr (b3, later)"
      by (subst tournament_loop.simps) (simp add: nm ne tc nmt del: tournament_loop.simps)
  qed
  have B: "next_message p msgs = Inr (a, rest0)
        \<and> startswith a ''TOURNAMENT_MATCH''
        \<and> py_get (py_split cd a) 2 = Inr match_token
        \<and> py_get (py_split cd a) 3 = Inr round_num
        \<and> match_token \<noteq> ''BYE''
        \<and> (if length (py_split cd a) > 4 then py_split cd a ! 4 else ''unknown'') \<noteq> ''BYE''
        \<and> join_match cd match_token name b0 rest0 = Inr (True, b1, rest1)
        \<and> play_game cd (b1\<lparr>sent := sent b1 @ [READY]\<rparr>) rest1 = Inr (Some msg, b2, rest2)
       \<longrightarrow> tournament_loop cd name p b0 msgs =
            (case recv_until ?ok rest2 of
               Inl e \<Rightarrow> Inl e
             | Inr (response, rest3) \<Rightarrow> tournament_loop cd name (Some msg) ?left rest3)
          \<and> tournament_loop cd name p b0 msgs =
            (case recv_until ?ok rest2 of
               Inl e \<Rightarrow> Inl e
             | Inr (response, rest3) \<Rightarrow> tournament_loop cd name None ?left (msg # rest3))
          \<and> (startswith msg ''TOURNAMENT_COMPLETE'' \<longrightarrow>
               tournament_loop cd name p b0 msgs =
                 (case recv_until ?ok rest2 of
                    Inl e \<Rightarrow> Inl e
                  | Inr (response, rest3) \<Rightarrow> Inr (?left, rest3)))"
  proof (intro impI, elim conjE)
    assume h: "next_message p msgs = Inr (a, rest0)"
      "startswith a ''TOURNAMENT_MATCH''"
      "py_get (py_split cd a) 2 = Inr match_token"
      "py_get (py_split cd a) 3 = Inr round_num"
      "match_token \<noteq> ''BYE''"
      "(if length (py_split cd a) > 4 then py_split cd a ! 4 else ''unknown'') \<noteq> ''BYE''"
      "join_match cd match_token name b0 rest0 = Inr (True, b1, rest1)"
      "play_game cd (b1\<lparr>sent := sent b1 @ [READY]\<rparr>) rest1 = Inr (Some msg, b2, rest2)"
    have an: "a \<noteq> []" using h(2) by (auto simp: startswith_def)
    have "tournament_loop cd name p b0 msgs =
            (case leave_game b2 rest2 of
               Inl e \<Rightarrow> Inl e
             | Inr (b3, rest3) \<Rightarrow> tournament_loop cd name (Some msg) b3 rest3)"
      by (subst tournament_loop.simps)
         (simp add: h an Let_def del: tournament_loop.simps play_game.simps)
    also have "\<dots> =
            (case recv_until ?ok rest2 of
               Inl e \<Rightarrow> Inl e
             | Inr (response, rest3) \<Rightarrow> tournament_loop cd name (Some msg) ?left rest3)"
      by (simp add: leave_game_def Let_def del: tournament_loop.simps
            split: sum.splits prod.splits)
    finally have one: "tournament_loop cd name p b0 msgs =
            (case recv_until ?ok rest2 of
               Inl e \<Rightarrow> Inl e
             | Inr (response, rest3) \<Rightarrow> tournament_loop cd name (Some msg) ?left rest3)" .
    have two: "tournament_loop cd name p b0 msgs =
            (case recv_until ?ok rest2 of
               Inl e \<Rightarrow> Inl e
             | Inr (response, rest3) \<Rightarrow> tournament_loop cd name None ?left (msg # rest3))"
      unfolding one by (simp add: C del: tournament_loop.simps split: sum.splits prod.splits)
    have three: "startswith msg ''TOURNAMENT_COMPLETE'' \<longrightarrow>
               tournament_loop cd name p b0 msgs =
                 (case recv_until ?ok rest2 of
                    Inl e \<Rightarrow> Inl e
                  | Inr (response, rest3) \<Rightarrow> Inr (?left, rest3))"
    proof
      assume tc: "startswith msg ''TOURNAMENT_COMPLETE''"
      show "tournament_loop cd name p b0 msgs =
                 (case recv_until ?ok rest2 of
                    Inl e \<Rightarrow> Inl e
                  | Inr (response, rest3) \<Rightarrow> Inr (?left, rest3))"
        unfolding one
        by (simp add: D [OF tc] del: tournament_loop.simps split: sum.splits prod.splits)
    qed
    from one two three show "tournament_loop cd name p b0 msgs =
            (case recv_until ?ok rest2 of
               Inl e \<Rightarrow> Inl e
             | Inr (response, rest3) \<Rightarrow> tournament_loop cd name (Some msg) ?left rest3)
          \<and> tournament_loop cd name p b0 msgs =
            (case recv_until ?ok rest2 of
               Inl e \<Rightarrow> Inl e
             | Inr (response, rest3) \<Rightarrow> tournament_loop cd name None ?left (msg # rest3))
          \<and> (startswith msg ''TOURNAMENT_COMPLETE'' \<longrightarrow>
               tournament_loop cd name p b0 msgs =
                 (case recv_until ?ok rest2 of
                    Inl e \<Rightarrow> Inl e
                  | Inr (response, rest3) \<Rightarrow> Inr (?left, rest3)))"
      by blast
  qed
  from A B nm C D show ?thesis by blast
qed

theorem play_game_returns_tournament_message_witness:
  "startswith ''TOURNAMENT_COMPLETE t1 Bob'' ''TOURNAMENT_COMPLETE''
   \<and> play_game (fixed_codec [''TOURNAMENT_MATCH'', ''t1'', ''m1'', ''1'', ''Bob''] 0 [] [])
       \<lparr>state = Some mid_game_state, sent = [PLAY 1]\<rparr>
       [''TOURNAMENT_COMPLETE t1 Bob'', ''GAME_END {} []'']
     = Inr (Some ''TOURNAMENT_COMPLETE t1 Bob'',
            \<lparr>state = Some mid_game_state, sent = [PLAY 1]\<rparr>, [''GAME_END {} []''])
   \<and> tournament_loop (fixed_codec [''TOURNAMENT_MATCH'', ''t1'', ''m1'', ''1'', ''Bob''] 0 [] [])
       ''Bot01'' None \<lparr>state = None, sent = [TOURNEY ''t1'' ''Bot01'']\<rparr>
       [''TOURNAMENT_MATCH t1 m1 1 Bob'', ''WELCOME m1 0 tok'', ''WAITING'',
        ''TOURNAMENT_COMPLETE t1 Bob'', ''PLAYED Bot01:Sashimi; Bob:Tempura'',
        ''GAME_END {} []'', ''OK'', ''TOURNAMENT_JOINED t2 Eve'']
     = Inr (\<lparr>state = None, sent = [TOURNEY ''t1'' ''Bot01'', TJOIN ''m1'', READY, LEAVE]\<rparr>,
            [''TOURNAMENT_JOINED t2 Eve''])"
proof -
  let ?cd = "fixed_codec [''TOURNAMENT_MATCH'', ''t1'', ''m1'', ''1'', ''Bob''] 0 [] []"
  let ?tc = "''TOURNAMENT_COMPLETE t1 Bob''"
  let ?tm = "''TOURNAMENT_MATCH t1 m1 1 Bob''"
  let ?b0 = "\<lparr>state = None, sent = [TOURNEY ''t1'' ''Bot01'']\<rparr>"
  let ?b1 = "\<lparr>state = Some (new_GameState ''t1'' 0 ''1'' ''Bot01''),
              sent = [TOURNEY ''t1'' ''Bot01'', TJOIN ''m1'']\<rparr>"
  let ?b2 = "\<lparr>state = Some (new_GameState ''t1'' 0 ''1'' ''Bot01''),
              sent = [TOURNEY ''t1'' ''Bot01'', TJOIN ''m1'', READY]\<rparr>"
  let ?rest2 = "[''PLAYED Bot01:Sashimi; Bob:Tempura'', ''GAME_END {} []'', ''OK'',
                 ''TOURNAMENT_JOINED t2 Eve'']"
  let ?rest1 = "''WAITING'' # ?tc # ?rest2"
  let ?rest0 = "''WELCOME m1 0 tok'' # ?rest1"
  have s: "startswith ?tc ''TOURNAMENT_COMPLETE''" by (simp add: startswith_def)
  then have d: "startswith ?tc ''TOURNAMENT_MATCH'' \<or> startswith ?tc ''TOURNAMENT_COMPLETE''" ..
  have h1: "next_message None (?tm # ?rest0) = Inr (?tm, ?rest0)"
    by (simp add: next_message_def recv_def)
  have h2: "startswith ?tm ''TOURNAMENT_MATCH''" by (simp add: startswith_def)
  have h3: "py_get (py_split ?cd ?tm) 2 = Inr ''m1''"
    and h4: "py_get (py_split ?cd ?tm) 3 = Inr ''1''"
    and h6: "(if length (py_split ?cd ?tm) > 4 then py_split ?cd ?tm ! 4 else ''unknown'') \<noteq> ''BYE''"
    by (simp_all add: fixed_codec_def py_get_def)
  have h5: "''m1'' \<noteq> ''BYE''" by simp
  have h7: "join_match ?cd ''m1'' ''Bot01'' ?b0 ?rest0 = Inr (True, ?b1, ?rest1)"
    by (simp add: join_match_def startswith_def fixed_codec_def py_get_def py_bind_def)
  have h8: "play_game ?cd (?b1\<lparr>sent := sent ?b1 @ [READY]\<rparr>) ?rest1 = Inr (Some ?tc, ?b2, ?rest2)"
    by (simp add: startswith_def)
  note t = play_game_returns_tournament_message [OF d, where cd = ?cd and name = "''Bot01''"]
  have a: "play_game ?cd \<lparr>state = Some mid_game_state, sent = [PLAY 1]\<rparr> [?tc, ''GAME_END {} []'']
     = Inr (Some ?tc, \<lparr>state = Some mid_game_state, sent = [PLAY 1]\<rparr>, [''GAME_END {} []''])"
    using t [THEN conjunct1] .
  have "tournament_loop ?cd ''Bot01'' None ?b0 (?tm # ?rest0) =
      (case recv_until (\<lambda>m. startswith m ''OK'' \<or> startswith m ''ERROR'') ?rest2 of
         Inl e \<Rightarrow> Inl e
       | Inr (response, rest3) \<Rightarrow>
           Inr (?b2\<lparr>sent := sent ?b2 @ [LEAVE], state := None\<rparr>, rest3))"
    using t [THEN conjunct2, THEN conjunct1] h1 h2 h3 h4 h5 h6 h7 h8 s by blast
  also have "\<dots> = Inr (?b2\<lparr>sent := sent ?b2 @ [LEAVE], state := None\<rparr>, [''TOURNAMENT_JOINED t2 Eve''])"
    by (simp add: startswith_def)
  finally have b: "tournament_loop ?cd ''Bot01'' None ?b0 (?tm # ?rest0)
     = Inr (\<lparr>state = None, sent = [TOURNEY ''t1'' ''Bot01'', TJOIN ''m1'', READY, LEAVE]\<rparr>,
            [''TOURNAMENT_JOINED t2 Eve''])"
    by simp
  from s a b show ?thesis by simp
qed

text \<open>
  The claim as first stated has the per-game loop go on handling in-match messages
  through \<open>GAME_END\<close> before the tournament message is acted on. Here a match is in
  progress, a \<open>TOURNAMENT_MATCH\<close> line arrives, and \<open>PLAYED\<close> and \<open>GAME_END\<close> follow:
  the loop returns on the first line, the reveal is not recorded, and both later lines
  are left in the stream.
\<close>

theorem play_game_tournament_message_counterexample:
  "play_game (fixed_codec [] 0 [] [(''Bot01'', [''Sashimi'']), (''Bob'', [''Tempura''])])
     \<lparr>state = Some mid_game_state, sent = [PLAY 1]\<rparr>
     [''TOURNAMENT_MATCH t1 m2 2 Carol'', ''PLAYED Bot01:Sashimi; Bob:Tempura'', ''GAME_END {} []'']
   = Inr (Some ''TOURNAMENT_MATCH t1 m2 2 Carol'',
          \<lparr>state = Some mid_game_state, sent = [PLAY 1]\<rparr>,
          [''PLAYED Bot01:Sashimi; Bob:Tempura'', ''GAME_END {} []''])"
  by (simp add: startswith_def)

text \<open>
  A whole tournament run with the same interleaving: the match is joined, a
  \<open>TOURNAMENT_COMPLETE\<close> line arrives before the match is over, the bot sends \<open>LEAVE\<close>,
  the in-match lines that follow are discarded while it waits for \<open>OK\<close>, and the run ends
  on the buffered message.
\<close>

lemma run_tournament_mid_game_complete:
  "run_tournament (fixed_codec [''TOURNAMENT_MATCH'', ''t1'', ''m1'', ''1'', ''Bob''] 0 [] [])
     ''t1'' ''Bot01'' \<lparr>state = None, sent = []\<rparr>
     [''TOURNAMENT_WELCOME t1 1/2 tok'', ''TOURNAMENT_MATCH t1 m1 1 Bob'', ''WELCOME m1 0 tok'',
      ''TOURNAMENT_COMPLETE t1 Bob'', ''PLAYED Bot01:Sashimi; Bob:Tempura'', ''GAME_END {} []'', ''OK'']
   = Inr (\<lparr>state = None, sent = [TOURNEY ''t1'' ''Bot01'', TJOIN ''m1'', READY, LEAVE]\<rparr>, [])"
  by (simp add: run_tournament_def join_tournament_def startswith_def fixed_codec_def
        next_message_def recv_def py_get_def join_match_def leave_game_def py_bind_def)

text \<open>
  C6. \<open>handle_played\<close>, on a reveal dict, appends each player's revealed cards in
  order to that player's tableau, starting from an empty tableau for a player not seen
  before; players not in the reveal keep their tableau; the turn counter and the
  rotation cursor both go up by exactly 1. The reveal
  \<open>{"Alice": ["Tempura"], "Bob": ["Sashimi"]}\<close> on empty tableaux gives Alice the
  tableau \<open>["Tempura"]\<close>, and a two-card entry appends both cards in order.
\<close>

theorem handle_played_appends:
  assumes "distinct (map fst (parse_played cd msg))"
  shows "\<exists>st'. handle_played cd msg (Some st) = Inr (Some st')
     \<and> (\<forall>(player, cards) \<in> set (parse_played cd msg).
           map_of (all_tableaux st') player =
             Some ((case map_of (all_tableaux st) player of None \<Rightarrow> [] | Some t \<Rightarrow> t) @ cards))
     \<and> (\<forall>player. player \<notin> fst ` set (parse_played cd msg) \<longrightarrow>
           map_of (all_tableaux st') player = map_of (all_tableaux st) player)
     \<and> turn st' = turn st + 1
     \<and> current_hand_ptr st' = current_hand_ptr st + 1
     \<and> last_turn_reveals st' = parse_played cd msg
     \<and> (parse_played cd msg = [(''Alice'', [''Tempura'']), (''Bob'', [''Sashimi''])]
          \<and> all_tableaux st = [] \<longrightarrow>
        map_of (all_tableaux st') ''Alice'' = Some [''Tempura''])
     \<and> (parse_played cd msg = [(''Alice'', [''Squid Nigiri'', ''Tempura'']), (''Bob'', [''Sashimi''])]
          \<and> map_of (all_tableaux st) ''Alice'' = Some t \<longrightarrow>
        map_of (all_tableaux st') ''Alice'' = Some (t @ [''Squid Nigiri'', ''Tempura'']))"
proof -
  let ?rv = "parse_played cd msg"
  let ?tabs = "handle_played_loop ?rv (all_tableaux st)"
  obtain st' where st': "handle_played cd msg (Some st) = Inr (Some st')"
    by (simp add: handle_played_def Let_def)
  then have tabs: "all_tableaux st' = ?tabs"
    and t: "turn st' = turn st + 1"
    and p: "current_hand_ptr st' = current_hand_ptr st + 1"
    and l: "last_turn_reveals st' = ?rv"
    by (auto simp: handle_played_def Let_def split: option.splits)
  note lk = handle_played_loop_lookup [OF assms, of "all_tableaux st"]
  have a: "\<forall>(player, cards) \<in> set ?rv.
           map_of (all_tableaux st') player =
             Some ((case map_of (all_tableaux st) player of None \<Rightarrow> [] | Some t \<Rightarrow> t) @ cards)"
  proof (intro ballI, clarify)
    fix player cards
    assume "(player, cards) \<in> set ?rv"
    with assms have "map_of ?rv player = Some cards" by simp
    then show "map_of (all_tableaux st') player =
             Some ((case map_of (all_tableaux st) player of None \<Rightarrow> [] | Some t \<Rightarrow> t) @ cards)"
      by (simp add: tabs lk)
  qed
  have b: "\<forall>player. player \<notin> fst ` set ?rv \<longrightarrow>
           map_of (all_tableaux st') player = map_of (all_tableaux st) player"
  proof (intro allI impI)
    fix player
    assume "player \<notin> fst ` set ?rv"
    then have "map_of ?rv player = None" by (simp add: map_of_eq_None_iff)
    then show "map_of (all_tableaux st') player = map_of (all_tableaux st) player"
      by (simp add: tabs lk)
  qed
  have c: "?rv = [(''Alice'', [''Tempura'']), (''Bob'', [''Sashimi''])]
          \<and> all_tableaux st = [] \<longrightarrow>
        map_of (all_tableaux st') ''Alice'' = Some [''Tempura'']"
    using a by auto
  have d: "?rv = [(''Alice'', [''Squid Nigiri'', ''Tempura'']), (''Bob'', [''Sashimi''])]
          \<and> map_of (all_tableaux st) ''Alice'' = Some t \<longrightarrow>
        map_of (all_tableaux st') ''Alice'' = Some (t @ [''Squid Nigiri'', ''Tempura''])"
    using a by auto
  from st' a b t p l c d show ?thesis by blast
qed

theorem handle_played_appends_witness:
  "(\<exists>st'. handle_played
       (fixed_codec [] 0 [] [(''Bot01'', [''Squid Nigiri'', ''Tempura'']), (''Carol'', [''Sashimi''])])
       ''PLAYED Bot01:Squid Nigiri,Tempura; Carol:Sashimi'' (Some mid_game_state) = Inr (Some st')
     \<and> map_of (all_tableaux st') ''Bot01'' = Some [''Tempura'', ''Squid Nigiri'', ''Tempura'']
     \<and> map_of (all_tableaux st') ''Carol'' = Some [''Sashimi'']
     \<and> map_of (all_tableaux st') ''Bob'' = Some [''Pudding'']
     \<and> turn st' = 3 \<and> current_hand_ptr st' = 1)
   \<and> (\<exists>st'. handle_played
       (fixed_codec [] 0 [] [(''Alice'', [''Tempura'']), (''Bob'', [''Sashimi''])])
       ''PLAYED Alice:Tempura; Bob:Sashimi'' (Some (new_GameState ''abc123'' 0 '''' ''Alice''))
         = Inr (Some st')
     \<and> map_of (all_tableaux st') ''Alice'' = Some [''Tempura'']
     \<and> turn st' = 2 \<and> current_hand_ptr st' = 1)"
proof -
  let ?cd = "fixed_codec [] 0 [] [(''Bot01'', [''Squid Nigiri'', ''Tempura'']), (''Carol'', [''Sashimi''])]"
  let ?m = "''PLAYED Bot01:Squid Nigiri,Tempura; Carol:Sashimi''"
  have rv: "parse_played ?cd ?m = [(''Bot01'', [''Squid Nigiri'', ''Tempura'']), (''Carol'', [''Sashimi''])]"
    by (simp add: fixed_codec_def)
  have d: "distinct (map fst (parse_played ?cd ?m))" by (simp add: rv)
  have s: "all_tableaux mid_game_state = [(''Bot01'', [''Tempura'']), (''Bob'', [''Pudding''])]"
    "turn mid_game_state = 2" "current_hand_ptr mid_game_state = 0"
    by (simp_all add: mid_game_state_def new_GameState_def)
  from handle_played_appends [OF d, of mid_game_state] obtain st' where
    h: "handle_played ?cd ?m (Some mid_game_state) = Inr (Some st')"
    and a: "\<forall>(player, cards) \<in> set (parse_played ?cd ?m).
           map_of (all_tableaux st') player =
             Some ((case map_of (all_tableaux mid_game_state) player of
                      None \<Rightarrow> [] | Some t \<Rightarrow> t) @ cards)"
    and b: "\<forall>player. player \<notin> fst ` set (parse_played ?cd ?m) \<longrightarrow>
           map_of (all_tableaux st') player = map_of (all_tableaux mid_game_state) player"
    and t: "turn st' = turn mid_game_state + 1"
    and p: "current_hand_ptr st' = current_hand_ptr mid_game_state + 1"
    by blast
  from a have "map_of (all_tableaux st') ''Bot01'' = Some [''Tempura'', ''Squid Nigiri'', ''Tempura'']"
    and "map_of (all_tableaux st') ''Carol'' = Some [''Sashimi'']"
    by (simp_all add: rv s)
  moreover from b have "map_of (all_tableaux st') ''Bob'' = Some [''Pudding'']"
    by (simp add: rv s)
  moreover from t p have "turn st' = 3" and "current_hand_ptr st' = 1"
    by (simp_all add: s)
  ultimately have first: "\<exists>st'. handle_played ?cd ?m (Some mid_game_state) = Inr (Some st')
     \<and> map_of (all_tableaux st') ''Bot01'' = Some [''Tempura'', ''Squid Nigiri'', ''Tempura'']
     \<and> map_of (all_tableaux st') ''Carol'' = Some [''Sashimi'']
     \<and> map_of (all_tableaux st') ''Bob'' = Some [''Pudding'']
     \<and> turn st' = 3 \<and> current_hand_ptr st' = 1"
    using h by blast
  let ?ce = "fixed_codec [] 0 [] [(''Alice'', [''Tempura'']), (''Bob'', [''Sashimi''])]"
  let ?n = "''PLAYED Alice:Tempura; Bob:Sashimi''"
  let ?f = "new_GameState ''abc123'' 0 '''' ''Alice''"
  have rw: "parse_played ?ce ?n = [(''Alice'', [''Tempura'']), (''Bob'', [''Sashimi''])]"
    by (simp add: fixed_codec_def)
  have e: "distinct (map fst (parse_played ?ce ?n))" by (simp add: rw)
  have f: "all_tableaux ?f = []" "turn ?f = 1" "current_hand_ptr ?f = 0"
    by (simp_all add: new_GameState_def)
  from handle_played_appends [OF e, of ?f] obtain su where
    "handle_played ?ce ?n (Some ?f) = Inr (Some su)"
    "parse_played ?ce ?n = [(''Alice'', [''Tempura'']), (''Bob'', [''Sashimi''])]
          \<and> all_tableaux ?f = [] \<longrightarrow>
        map_of (all_tableaux su) ''Alice'' = Some [''Tempura'']"
    "turn su = turn ?f + 1" "current_hand_ptr su = current_hand_ptr ?f + 1"
    by blast
  then have second: "\<exists>st'. handle_played ?ce ?n (Some ?f) = Inr (Some st')
     \<and> map_of (all_tableaux st') ''Alice'' = Some [''Tempura'']
     \<and> turn st' = 2 \<and> current_hand_ptr st' = 1"
    using rw f by simp
  from first second show ?thesis by (rule conjI)
qed

text \<open>
  C7. \<open>_record_play\<close> always records the card as last played and appends it to the
  own tableau, and never touches a buffer slot other than the one at the cursor. When
  the slot at the cursor holds a hand that contains the card, exactly one occurrence
  of the card leaves that hand; in particular this is so right after the hand has been
  observed. When the cursor is past the buffer, the slot is \<open>None\<close> or the card is not
  in the slot, the buffer is unchanged.
\<close>

theorem record_play_frame:
  "last_card_played (record_play c st) = Some c
   \<and> my_tableau (record_play c st) = my_tableau st @ [c]
   \<and> current_hand_ptr (record_play c st) = current_hand_ptr st
   \<and> length (all_hands (record_play c st)) = length (all_hands st)
   \<and> (\<forall>i. i \<noteq> current_hand_ptr st \<longrightarrow>
          all_hands (record_play c st) ! i = all_hands st ! i)
   \<and> (\<forall>tracked.
         current_hand_ptr st < length (all_hands st)
         \<and> all_hands st ! current_hand_ptr st = Some tracked \<and> c \<in> set tracked \<longrightarrow>
         all_hands (record_play c st) ! current_hand_ptr st = Some (remove1 c tracked)
         \<and> length (remove1 c tracked) + 1 = length tracked
         \<and> count_list (remove1 c tracked) c + 1 = count_list tracked c
         \<and> (\<forall>x. x \<noteq> c \<longrightarrow> count_list (remove1 c tracked) x = count_list tracked x))
   \<and> (\<forall>parsed.
         current_hand_ptr st < length (all_hands st) \<and> c \<in> set parsed \<longrightarrow>
         all_hands (record_play c (observe_hand parsed st))
           = (all_hands st)[current_hand_ptr st := Some (remove1 c parsed)])
   \<and> (length (all_hands st) \<le> current_hand_ptr st
        \<or> all_hands st ! current_hand_ptr st = None
        \<or> (\<exists>tracked. all_hands st ! current_hand_ptr st = Some tracked \<and> c \<notin> set tracked)
       \<longrightarrow> all_hands (record_play c st) = all_hands st)"
proof -
  have a: "last_card_played (record_play c st) = Some c"
    by (simp add: record_play_def Let_def split: option.splits)
  have b: "my_tableau (record_play c st) = my_tableau st @ [c]"
    by (simp add: record_play_def Let_def split: option.splits)
  have p: "current_hand_ptr (record_play c st) = current_hand_ptr st"
    by (simp add: record_play_def Let_def split: option.splits)
  have l: "length (all_hands (record_play c st)) = length (all_hands st)"
    by (simp add: record_play_def Let_def split: option.splits)
  have o: "\<forall>i. i \<noteq> current_hand_ptr st \<longrightarrow>
          all_hands (record_play c st) ! i = all_hands st ! i"
    by (simp add: record_play_def Let_def split: option.splits)
  have r: "\<forall>tracked.
         current_hand_ptr st < length (all_hands st)
         \<and> all_hands st ! current_hand_ptr st = Some tracked \<and> c \<in> set tracked \<longrightarrow>
         all_hands (record_play c st) ! current_hand_ptr st = Some (remove1 c tracked)
         \<and> length (remove1 c tracked) + 1 = length tracked
         \<and> count_list (remove1 c tracked) c + 1 = count_list tracked c
         \<and> (\<forall>x. x \<noteq> c \<longrightarrow> count_list (remove1 c tracked) x = count_list tracked x)"
  proof (intro allI impI)
    fix tracked
    assume h: "current_hand_ptr st < length (all_hands st)
         \<and> all_hands st ! current_hand_ptr st = Some tracked \<and> c \<in> set tracked"
    then have m: "c \<in> set tracked" by simp
    from h have "all_hands (record_play c st) ! current_hand_ptr st = Some (remove1 c tracked)"
      by (simp add: record_play_def Let_def)
    moreover have "\<forall>x. x \<noteq> c \<longrightarrow> count_list (remove1 c tracked) x = count_list tracked x"
      by simp
    ultimately show "all_hands (record_play c st) ! current_hand_ptr st = Some (remove1 c tracked)
         \<and> length (remove1 c tracked) + 1 = length tracked
         \<and> count_list (remove1 c tracked) c + 1 = count_list tracked c
         \<and> (\<forall>x. x \<noteq> c \<longrightarrow> count_list (remove1 c tracked) x = count_list tracked x)"
      using length_remove1_member [OF m] count_list_remove1_member [OF m] by blast
  qed
  have ob: "\<forall>parsed.
         current_hand_ptr st < length (all_hands st) \<and> c \<in> set parsed \<longrightarrow>
         all_hands (record_play c (observe_hand parsed st))
           = (all_hands st)[current_hand_ptr st := Some (remove1 c parsed)]"
    by (simp add: record_play_def observe_hand_def Let_def)
  have n: "length (all_hands st) \<le> current_hand_ptr st
        \<or> all_hands st ! current_hand_ptr st = None
        \<or> (\<exists>tracked. all_hands st ! current_hand_ptr st = Some tracked \<and> c \<notin> set tracked)
       \<longrightarrow> all_hands (record_play c st) = all_hands st"
    by (auto simp: record_play_def Let_def split: option.splits)
  from a b p l o r ob n show ?thesis by blast
qed

theorem record_play_frame_witness:
  "all_hands (record_play ''Tempura'' mid_game_state) ! 0 = Some [''Sashimi'', ''Tempura'']
   \<and> all_hands (record_play ''Tempura'' mid_game_state) ! 1 = None
   \<and> all_hands (record_play ''Pudding'' mid_game_state) = all_hands mid_game_state
   \<and> my_tableau (record_play ''Pudding'' mid_game_state) = [''Tempura'', ''Pudding'']
   \<and> all_hands (record_play ''Egg Nigiri''
        (observe_hand [''Wasabi'', ''Egg Nigiri'', ''Egg Nigiri''] mid_game_state))
      = [Some [''Wasabi'', ''Egg Nigiri''], None]"
proof -
  have p: "current_hand_ptr mid_game_state = 0"
    and a: "all_hands mid_game_state = [Some [''Sashimi'', ''Tempura'', ''Tempura''], None]"
    and t: "my_tableau mid_game_state = [''Tempura'']"
    by (simp_all add: mid_game_state_def new_GameState_def)
  show ?thesis
    using record_play_frame [of "''Tempura''" mid_game_state]
      record_play_frame [of "''Pudding''" mid_game_state]
      record_play_frame [of "''Egg Nigiri''" mid_game_state]
    by (simp add: p a t)
qed

text \<open>
  C8. After a round-start event (a \<open>ROUND_START\<close> line whose round number decodes),
  whatever the state before: the rotation buffer consists of unknown slots only, as many
  as \<open>player_count\<close> when that is at least 1 and a single one when it is 0; the cursor
  is 0, the turn is 1, and the own tableau, all tracked tableaux, the last played card
  and the last reveals are cleared.
\<close>

theorem handle_round_start_resets:
  assumes "1 < length (py_split cd msg)" and "py_int cd (py_split cd msg ! 1) = Inr r"
  shows "\<exists>st'. handle_round_start cd msg (Some st) = Inr (Some st')
     \<and> all_hands st' = replicate (nat (max (player_count st) 1)) None
     \<and> (1 \<le> player_count st \<longrightarrow> int (length (all_hands st')) = player_count st)
     \<and> (player_count st = 0 \<longrightarrow> all_hands st' = [None])
     \<and> (\<forall>slot \<in> set (all_hands st'). slot = None)
     \<and> current_hand_ptr st' = 0
     \<and> turn st' = 1
     \<and> round st' = r
     \<and> my_tableau st' = []
     \<and> all_tableaux st' = []
     \<and> last_card_played st' = None
     \<and> last_turn_reveals st' = []
     \<and> player_count st' = player_count st"
  using assms
  by (simp add: handle_round_start_def py_get_def py_bind_def Let_def)

theorem handle_round_start_resets_witness:
  "(\<exists>st'. handle_round_start (fixed_codec [''ROUND_START'', ''2''] 2 [] [])
            ''ROUND_START 2'' (Some mid_game_state) = Inr (Some st')
     \<and> all_hands st' = [None, None] \<and> current_hand_ptr st' = 0 \<and> turn st' = 1
     \<and> my_tableau st' = [] \<and> all_tableaux st' = [])
   \<and> (\<exists>st'. handle_round_start (fixed_codec [''ROUND_START'', ''1''] 1 [] [])
            ''ROUND_START 1'' (Some (new_GameState ''abc123'' 0 '''' ''Bot01'')) = Inr (Some st')
     \<and> all_hands st' = [None])"
proof -
  let ?cd = "fixed_codec [''ROUND_START'', ''2''] 2 [] []"
  let ?m = "''ROUND_START 2''"
  have l: "1 < length (py_split ?cd ?m)" by (simp add: fixed_codec_def)
  have i: "py_int ?cd (py_split ?cd ?m ! 1) = Inr 2" by (simp add: fixed_codec_def)
  have c: "player_count mid_game_state = 2"
    by (simp add: mid_game_state_def new_GameState_def)
  from handle_round_start_resets [OF l i, of mid_game_state] obtain st' where
    "handle_round_start ?cd ?m (Some mid_game_state) = Inr (Some st')"
    "all_hands st' = replicate (nat (max (player_count mid_game_state) 1)) None"
    "current_hand_ptr st' = 0" "turn st' = 1" "my_tableau st' = []" "all_tableaux st' = []"
    by blast
  then have first: "\<exists>st'. handle_round_start ?cd ?m (Some mid_game_state) = Inr (Some st')
     \<and> all_hands st' = [None, None] \<and> current_hand_ptr st' = 0 \<and> turn st' = 1
     \<and> my_tableau st' = [] \<and> all_tableaux st' = []"
    by (simp add: c numeral_2_eq_2)
  let ?ce = "fixed_codec [''ROUND_START'', ''1''] 1 [] []"
  let ?n = "''ROUND_START 1''"
  let ?f = "new_GameState ''abc123'' 0 '''' ''Bot01''"
  have l': "1 < length (py_split ?ce ?n)" by (simp add: fixed_codec_def)
  have i': "py_int ?ce (py_split ?ce ?n ! 1) = Inr 1" by (simp add: fixed_codec_def)
  have z: "player_count ?f = 0" by (simp add: new_GameState_def)
  from handle_round_start_resets [OF l' i', of ?f] obtain su where
    "handle_round_start ?ce ?n (Some ?f) = Inr (Some su)"
    "player_count ?f = 0 \<longrightarrow> all_hands su = [None]"
    by blast
  with z have second: "\<exists>st'. handle_round_start ?ce ?n (Some ?f) = Inr (Some st')
     \<and> all_hands st' = [None]"
    by blast
  from first second show ?thesis by (rule conjI)
qed

text \<open>
  C9. For every tableau, \<open>has_unused_wasabi\<close> is true exactly when the tableau holds
  strictly more Wasabi than Egg, Salmon and Squid Nigiri together.
\<close>

theorem has_unused_wasabi_iff:
  "has_unused_wasabi st =
     (count_list (my_tableau st) ''Wasabi'' >
        count_list (my_tableau st) ''Egg Nigiri''
      + count_list (my_tableau st) ''Salmon Nigiri''
      + count_list (my_tableau st) ''Squid Nigiri'')"
  by (simp add: has_unused_wasabi_def count_def add.assoc)

text \<open>
  C10. For every non-empty hand and every game state, whatever the player count, the
  tracked tableaux and the rotation buffer, \<open>choose_card\<close> raises no error and returns
  an index below the length of the hand.
\<close>

theorem choose_card_in_range:
  "h \<noteq> [] \<Longrightarrow> \<exists>i. choose_card h st = Inr i \<and> i < length h"
  unfolding choose_card_def Let_def
  by (rule finish_in_range)
     (intro first_return_in_range_Cons first_return_in_range_Nil combo_rule_in_range
        pudding_rule_in_range rule_in_range_if rule_in_range_if1)

theorem choose_card_in_range_witness:
  "[''Pudding'', ''Chopsticks''] \<noteq> []
   \<and> (\<exists>i. choose_card [''Pudding'', ''Chopsticks'']
              ((new_GameState ''abc123'' 0 '''' ''Bot01'')\<lparr>player_count := 7\<rparr>) = Inr i
          \<and> i < length [''Pudding'', ''Chopsticks''])"
proof -
  have ne: "[''Pudding'', ''Chopsticks''] \<noteq> []" by simp
  show ?thesis
    using ne choose_card_in_range [OF ne] by simp
qed

end
